theory Spec2Isabelle
  imports Main "HOL-Library.Word"
begin

unbundle bit_operations_syntax

section \<open>Machine sizes and bytes\<close>

type_synonym byte = "8 word"

text \<open>
  \<open>size_t\<close> is 64 bits wide and \<open>ssize_t\<close> is its signed counterpart. Sizes are
  natural numbers below \<open>2 ^ 64\<close>; the wrap-around of an unsigned addition or
  subtraction and the reading of a \<open>size_t\<close> as an \<open>ssize_t\<close> are written out.
\<close>

definition size_add :: "nat \<Rightarrow> nat \<Rightarrow> nat" where
  "size_add a b = (a + b) mod 2 ^ 64"

definition size_sub :: "nat \<Rightarrow> nat \<Rightarrow> nat" where
  "size_sub a b = (if b \<le> a then a - b else (a + 2 ^ 64 - b mod 2 ^ 64) mod 2 ^ 64)"

definition ssize_of :: "nat \<Rightarrow> int" where
  "ssize_of n = (if n < 2 ^ 63 then int n else int n - 2 ^ 64)"

text \<open>The conversion \<open>(size_t)r\<close> of a signed value.\<close>

definition size_of_int :: "int \<Rightarrow> nat" where
  "size_of_int r = nat (r mod 2 ^ 64)"

section \<open>xwrite: write all bytes or return an error\<close>

text \<open>
  \<open>xwrite(fd, buf, count)\<close> calls \<open>write(2)\<close> until \<open>offset\<close> reaches \<open>count\<close>.
  The results of the successive \<open>write\<close> calls are the script \<open>ws\<close>; a positive
  result \<open>w\<close> appends the \<open>w\<close> bytes at \<open>buf + offset\<close> to the file, a result
  \<open>\<le> 0\<close> appends nothing. \<open>None\<close> means that the script ended while the loop was
  still asking for another \<open>write\<close>.
\<close>

fun xwrite_loop :: "int list \<Rightarrow> byte list \<Rightarrow> nat \<Rightarrow> nat \<Rightarrow> byte list
    \<Rightarrow> (int \<times> byte list) option" where
  "xwrite_loop [] buf count offset fdata =
     (if offset < count then None else Some (ssize_of offset, fdata))"
| "xwrite_loop (written # ws) buf count offset fdata =
     (if offset < count then
        (if written \<le> 0 then Some (written, fdata)
         else xwrite_loop ws buf count (size_add offset (nat written))
                (fdata @ take (nat written) (drop offset buf)))
      else Some (ssize_of offset, fdata))"

definition xwrite :: "int list \<Rightarrow> byte list \<Rightarrow> nat \<Rightarrow> byte list
    \<Rightarrow> (int \<times> byte list) option" where
  "xwrite ws buf count fdata = xwrite_loop ws buf count 0 fdata"

text \<open>
  The contract of \<open>write(2)\<close>: a call asked for \<open>count - offset\<close> bytes never
  reports more than that.
\<close>

fun write_contract :: "int list \<Rightarrow> nat \<Rightarrow> nat \<Rightarrow> bool" where
  "write_contract [] count offset = True"
| "write_contract (written # ws) count offset =
     (if offset < count then
        written \<le> int (count - offset) \<and>
        (if written \<le> 0 then True else write_contract ws count (offset + nat written))
      else True)"

section \<open>Configuration\<close>

text \<open>
  The globals of \<open>fplay.c\<close> that stay fixed while a stream runs, as they stand
  after \<open>set_params\<close>: \<open>bits_per_sample\<close> is the physical width of the format,
  \<open>significant_bits_per_sample\<close> its width, \<open>silence_64\<close> the value of
  \<open>snd_pcm_format_silence_64\<close>, \<open>hw_map\<close> the channel permutation of
  \<open>setup_chmap\<close> (\<open>None\<close> for the null pointer).
\<close>

datatype snd_pcm_stream = SND_PCM_STREAM_PLAYBACK | SND_PCM_STREAM_CAPTURE

datatype vumeter_mode = VUMETER_NONE | VUMETER_MONO | VUMETER_STEREO

record config =
  stream :: snd_pcm_stream
  channels :: nat
  rate :: nat
  bits_per_sample :: nat
  significant_bits_per_sample :: nat
  format_little_endian :: bool
  silence_64 :: "64 word"
  chunk_size :: nat
  buffer_frames :: nat
  vumeter :: vumeter_mode
  interleaved :: bool
  verbose :: int
  test_coef :: int
  fatal_errors :: bool
  hw_map :: "nat list option"
  timelimit :: int
  sampleslimit :: int
  max_file_time :: int
  use_strftime :: bool

definition bits_per_frame :: "config \<Rightarrow> nat" where
  "bits_per_frame cfg = bits_per_sample cfg * channels cfg"

definition chunk_bytes :: "config \<Rightarrow> nat" where
  "chunk_bytes cfg = chunk_size cfg * bits_per_frame cfg div 8"

text \<open>The three narrower silence values are truncations of \<open>silence_64\<close>.\<close>

definition snd_pcm_format_silence :: "config \<Rightarrow> 8 word" where
  "snd_pcm_format_silence cfg = ucast (silence_64 cfg)"

definition snd_pcm_format_silence_16 :: "config \<Rightarrow> 16 word" where
  "snd_pcm_format_silence_16 cfg = ucast (silence_64 cfg)"

definition snd_pcm_format_silence_32 :: "config \<Rightarrow> 32 word" where
  "snd_pcm_format_silence_32 cfg = ucast (silence_64 cfg)"

text \<open>
  C \<open>int\<close> is 32 bits wide: \<open>s32\<close> is the value an out-of-range result wraps to,
  \<open>c_div\<close> and \<open>c_mod\<close> the division that truncates towards zero and its
  remainder, \<open>c_abs\<close> the library
  \<open>abs\<close> (the most negative value stays as it is).
\<close>

definition s32 :: "int \<Rightarrow> int" where
  "s32 x = signed_take_bit 31 x"

text \<open>
  The product of two \<open>unsigned int\<close> operands (an \<open>int\<close> operand is converted
  first), which wraps at \<open>2 ^ 32\<close>, and the value a 64-bit signed result wraps
  to.
\<close>

definition uint_mul :: "int \<Rightarrow> int \<Rightarrow> nat" where
  "uint_mul a b = nat ((a * b) mod 2 ^ 32)"

definition s64 :: "int \<Rightarrow> int" where
  "s64 x = signed_take_bit 63 x"

definition c_div :: "int \<Rightarrow> int \<Rightarrow> int" where
  "c_div a b = sgn a * sgn b * (\<bar>a\<bar> div \<bar>b\<bar>)"

definition c_mod :: "int \<Rightarrow> int \<Rightarrow> int" where
  "c_mod a b = a - b * c_div a b"

definition c_abs :: "int \<Rightarrow> int" where
  "c_abs x = (if x < 0 then s32 (- x) else x)"

definition byte_at :: "byte list \<Rightarrow> nat \<Rightarrow> byte" where
  "byte_at d i = (if i < length d then d ! i else 0)"

text \<open>
  Two configurations for concrete runs: unsigned 8-bit mono at 8000 Hz (the default
  format of the program) with chunks of four frames, and signed 16-bit little-endian
  stereo with chunks of two frames.
\<close>

definition cfg_u8 :: config where
  "cfg_u8 = \<lparr>stream = SND_PCM_STREAM_PLAYBACK, channels = 1, rate = 8000,
     bits_per_sample = 8, significant_bits_per_sample = 8, format_little_endian = True,
     silence_64 = 0x8080808080808080, chunk_size = 4, buffer_frames = 16,
     vumeter = VUMETER_NONE, interleaved = True, verbose = 0, test_coef = 8,
     fatal_errors = False, hw_map = None, timelimit = 0, sampleslimit = 0,
     max_file_time = 0, use_strftime = False\<rparr>"

definition cfg_s16 :: config where
  "cfg_s16 = \<lparr>stream = SND_PCM_STREAM_PLAYBACK, channels = 2, rate = 44100,
     bits_per_sample = 16, significant_bits_per_sample = 16, format_little_endian = True,
     silence_64 = 0, chunk_size = 2, buffer_frames = 8,
     vumeter = VUMETER_STEREO, interleaved = True, verbose = 0, test_coef = 8,
     fatal_errors = False, hw_map = None, timelimit = 0, sampleslimit = 0,
     max_file_time = 0, use_strftime = False\<rparr>"


text \<open>
  Two capture configurations on the 8-bit format: one without limits, and one of
  ten samples at 4 Hz (two and a half seconds, at 4 bytes per second) with
  \<open>--max-file-time=1\<close>.
\<close>

definition cfg_capture :: config where
  "cfg_capture = cfg_u8\<lparr>stream := SND_PCM_STREAM_CAPTURE\<rparr>"

definition cfg_capture_10 :: config where
  "cfg_capture_10 = cfg_u8\<lparr>stream := SND_PCM_STREAM_CAPTURE, rate := 4, sampleslimit := 10,
     max_file_time := 1\<rparr>"

section \<open>The peak meter\<close>

subsection \<open>Decoding one sample\<close>

text \<open>
  One function for each \<open>case\<close> of the \<open>switch (bits_per_sample)\<close> in
  \<open>compute_max_peak\<close>: the value of \<open>val\<close> that is compared with
  \<open>max_peak[c]\<close>, from the bytes at \<open>valp\<close>.
\<close>

definition val_8 :: "config \<Rightarrow> byte list \<Rightarrow> int" where
  "val_8 cfg d = c_abs (sint (byte_at d 0) XOR sint (snd_pcm_format_silence cfg))"

definition val_16 :: "config \<Rightarrow> byte list \<Rightarrow> int" where
  "val_16 cfg d =
     (let lo = (if format_little_endian cfg then byte_at d 0 else byte_at d 1);
          hi = (if format_little_endian cfg then byte_at d 1 else byte_at d 0);
          sval = (ucast lo OR push_bit 8 (ucast hi)) :: 16 word;
          sval = sval XOR snd_pcm_format_silence_16 cfg
      in c_abs (sint sval))"

definition val_24 :: "config \<Rightarrow> byte list \<Rightarrow> int" where
  "val_24 cfg d =
     (let v = (if format_little_endian cfg
               then ucast (byte_at d 0) OR push_bit 8 (ucast (byte_at d 1))
                      OR push_bit 16 (ucast (byte_at d 2))
               else push_bit 16 (ucast (byte_at d 0)) OR push_bit 8 (ucast (byte_at d 1))
                      OR ucast (byte_at d 2)) :: 32 word;
          v = v XOR snd_pcm_format_silence_32 cfg;
          v = (if v AND push_bit (bits_per_sample cfg - 1) 1 \<noteq> 0
               then v OR push_bit 24 0xff else v)
      in c_abs (sint v))"

definition val_32 :: "config \<Rightarrow> byte list \<Rightarrow> int" where
  "val_32 cfg d =
     (let v = (if format_little_endian cfg
               then ucast (byte_at d 0) OR push_bit 8 (ucast (byte_at d 1))
                      OR push_bit 16 (ucast (byte_at d 2)) OR push_bit 24 (ucast (byte_at d 3))
               else push_bit 24 (ucast (byte_at d 0)) OR push_bit 16 (ucast (byte_at d 1))
                      OR push_bit 8 (ucast (byte_at d 2)) OR ucast (byte_at d 3)) :: 32 word;
          v = v XOR snd_pcm_format_silence_32 cfg
      in if v = 0x80000000 then 0x7fffffff else c_abs (sint v))"

subsection \<open>The scan of a chunk\<close>

text \<open>
  The \<open>while (samples-- > 0)\<close> loop: \<open>dec\<close> decodes the sample at \<open>valp\<close>,
  \<open>w\<close> is the step of \<open>valp\<close> in bytes, \<open>c\<close> the channel index, which
  alternates in stereo mode, and the pair is \<open>max_peak[0]\<close>, \<open>max_peak[1]\<close>.
\<close>

fun peak_loop :: "(byte list \<Rightarrow> int) \<Rightarrow> nat \<Rightarrow> bool \<Rightarrow> nat \<Rightarrow> byte list \<Rightarrow> bool
    \<Rightarrow> int \<times> int \<Rightarrow> int \<times> int" where
  "peak_loop dec w stereo 0 valp c max_peak = max_peak"
| "peak_loop dec w stereo (Suc samples) valp c max_peak =
     (let val = dec valp;
          max_peak = (if c then (fst max_peak, if snd max_peak < val then val else snd max_peak)
                      else (if fst max_peak < val then val else fst max_peak, snd max_peak))
      in peak_loop dec w stereo samples (drop w valp) (if stereo then \<not> c else c) max_peak)"

definition supported_bits :: "nat \<Rightarrow> bool" where
  "supported_bits b = (b = 8 \<or> b = 16 \<or> b = 24 \<or> b = 32)"

definition scan_peaks :: "config \<Rightarrow> byte list \<Rightarrow> nat \<Rightarrow> int \<times> int" where
  "scan_peaks cfg valp samples =
     (let stereo = (vumeter cfg = VUMETER_STEREO) in
      if bits_per_sample cfg = 8 then peak_loop (val_8 cfg) 1 stereo samples valp False (0, 0)
      else if bits_per_sample cfg = 16 then peak_loop (val_16 cfg) 2 stereo samples valp False (0, 0)
      else if bits_per_sample cfg = 24 then peak_loop (val_24 cfg) 3 stereo samples valp False (0, 0)
      else peak_loop (val_32 cfg) 4 stereo samples valp False (0, 0))"

text \<open>
  \<open>max = 1 << (significant_bits_per_sample-1); if (max <= 0) max = 0x7fffffff;\<close>
\<close>

definition full_scale :: "config \<Rightarrow> int" where
  "full_scale cfg =
     (let maxv = s32 (push_bit (significant_bits_per_sample cfg - 1) 1)
      in if maxv \<le> 0 then 0x7fffffff else maxv)"

text \<open>
  The body of the \<open>for (c = 0; c < ichans; c++)\<close> loop for one channel: the clamped
  peak and its percentage. The division of the wide branch traps when \<open>max / 100\<close>
  is zero: \<open>None\<close>.
\<close>

definition clamp_peak :: "int \<Rightarrow> int \<Rightarrow> int" where
  "clamp_peak maxv p = (if p > maxv then maxv else p)"

definition perc_of :: "config \<Rightarrow> int \<Rightarrow> int \<Rightarrow> int option" where
  "perc_of cfg maxv p =
     (if bits_per_sample cfg > 16
      then (if c_div maxv 100 = 0 then None else Some (c_div p (c_div maxv 100)))
      else Some (c_div (s32 (p * 100)) maxv))"

definition ichans :: "config \<Rightarrow> nat" where
  "ichans cfg = (if vumeter cfg = VUMETER_STEREO then 2 else 1)"

text \<open>
  The peaks \<open>max_peak[c]\<close> and percentages \<open>perc[c]\<close> for \<open>c < ichans\<close>, after
  the clamp, for a supported width.
\<close>

definition peak_percent :: "config \<Rightarrow> byte list \<Rightarrow> nat \<Rightarrow> (int list \<times> int list) option" where
  "peak_percent cfg data samples =
     (let mp = scan_peaks cfg data samples;
          maxv = full_scale cfg;
          p0 = clamp_peak maxv (fst mp);
          p1 = clamp_peak maxv (snd mp)
      in case perc_of cfg maxv p0 of
           None \<Rightarrow> None
         | Some q0 \<Rightarrow>
             if ichans cfg = 1 then Some ([p0], [q0])
             else (case perc_of cfg maxv p1 of
                     None \<Rightarrow> None
                   | Some q1 \<Rightarrow> Some ([p0, p1], [q0, q1])))"

subsection \<open>The meter as a whole\<close>

text \<open>
  The static variables of \<open>compute_max_peak\<close> (\<open>run\<close>, \<open>maxperc\<close>, \<open>t\<close>) and
  what it has written to the diagnostic stream: the report of an unsupported width,
  a call of \<open>print_vu_meter\<close> with its arguments for the channels in use, or the
  "Max peak" line with the sample count, \<open>max_peak[0]\<close> and \<open>perc[0]\<close>.
\<close>

datatype meter_out =
    Unsupported_bit_size nat
  | Print_vu_meter "int list" "int list"
  | Max_peak_line nat int int

record meter =
  peak_run :: bool
  peak_maxperc :: "int list"
  peak_t :: int
  peak_out :: "meter_out list"

definition meter_init :: meter where
  "meter_init = \<lparr>peak_run = False, peak_maxperc = [0, 0], peak_t = 0, peak_out = []\<rparr>"

text \<open>
  \<open>compute_max_peak(data, samples)\<close>; \<open>now\<close> is the value of \<open>time(NULL)\<close>.
  \<open>None\<close> is the trap of the division.
\<close>

definition compute_max_peak :: "config \<Rightarrow> int \<Rightarrow> byte list \<Rightarrow> nat \<Rightarrow> meter \<Rightarrow> meter option" where
  "compute_max_peak cfg now data samples m =
     (if \<not> supported_bits (bits_per_sample cfg) then
        Some (if \<not> peak_run m
              then m\<lparr>peak_run := True,
                     peak_out := peak_out m @ [Unsupported_bit_size (bits_per_sample cfg)]\<rparr>
              else m)
      else
        (case peak_percent cfg data samples of
           None \<Rightarrow> None
         | Some (max_peak, perc) \<Rightarrow>
             if interleaved cfg \<and> verbose cfg \<le> 2 then
               (let m1 = (if now > peak_t m then m\<lparr>peak_t := now, peak_maxperc := [0, 0]\<rparr> else m);
                    maxperc = map (\<lambda>(p, mx). if p > mx then p else mx) (zip perc (peak_maxperc m1))
                              @ drop (length perc) (peak_maxperc m1)
                in Some (m1\<lparr>peak_maxperc := maxperc,
                            peak_out := peak_out m1 @ [Print_vu_meter perc (take (length perc) maxperc)]\<rparr>))
             else if verbose cfg = 3 then
               Some (m\<lparr>peak_out := peak_out m @ [Max_peak_line samples (hd max_peak) (hd perc)]\<rparr>)
             else Some m))"

text \<open>
  The calls of \<open>compute_max_peak\<close> over a whole stream, one for each successful
  device transfer, each with its clock value, data and sample count.
\<close>

fun compute_max_peaks :: "config \<Rightarrow> (int \<times> byte list \<times> nat) list \<Rightarrow> meter \<Rightarrow> meter option" where
  "compute_max_peaks cfg [] m = Some m"
| "compute_max_peaks cfg ((tm, data, samples) # calls) m =
     (case compute_max_peak cfg tm data samples m of
        None \<Rightarrow> None
      | Some m' \<Rightarrow> compute_max_peaks cfg calls m')"

text \<open>
  The state of the meter after the unsupported-width branch of
  \<open>compute_max_peak\<close>.
\<close>

definition reported :: "config \<Rightarrow> meter \<Rightarrow> meter" where
  "reported cfg m =
     (if peak_run m then m
      else m\<lparr>peak_run := True,
             peak_out := peak_out m @ [Unsupported_bit_size (bits_per_sample cfg)]\<rparr>)"

section \<open>The process and its environment\<close>

text \<open>
  \<open>EXIT_FAILURE\<close>, \<open>EXIT_SUCCESS\<close> and the error numbers of Linux that the
  transfer loops compare with.
\<close>

definition EXIT_SUCCESS :: int where "EXIT_SUCCESS = 0"
definition EXIT_FAILURE :: int where "EXIT_FAILURE = 1"
definition EAGAIN :: int where "EAGAIN = 11"
definition EPIPE :: int where "EPIPE = 32"
definition ESTRPIPE :: int where "ESTRPIPE = 86"

datatype signal = SIGINT | SIGTERM | SIGABRT

text \<open>
  The PCM handle: open, closed by \<open>snd_pcm_close\<close>, or set to \<open>NULL\<close> without
  having been closed (the \<open>SIGABRT\<close> branch of the signal handler).
\<close>

datatype handle_state = Handle_open | Handle_closed | Handle_dropped

text \<open>
  The mutable globals and what the process has done to the outside: \<open>device\<close> is
  the sequence of bytes that went through the PCM device (taken by it in playback,
  produced by it in capture) and \<open>device_frames\<close> the number of frames the device
  reported for them; \<open>input\<close> is the unread rest of the playback file; \<open>files\<close>
  are the regular files by name, in the order of their creation, and
  \<open>stdout_data\<close> what was written to the standard output; \<open>pidfile_exists\<close>
  tells whether the process-id file is on disk; \<open>sig_dfl\<close> lists the signals
  whose disposition the handler has set back to \<open>SIG_DFL\<close>.
\<close>

record world =
  in_aborting :: bool
  recycle_capture_file :: bool
  audiobuf :: "byte list"
  device :: "byte list"
  device_frames :: nat
  input :: "byte list"
  peak :: meter
  files :: "(string \<times> byte list) list"
  stdout_data :: "byte list"
  max_file_size :: int
  handle :: handle_state
  pidfile_written :: bool
  pidfile_exists :: bool
  sig_dfl :: "signal list"

text \<open>
  How a call ends: it returns a value, the process exits through \<open>prg_exit\<close> with
  a status, the process is stopped by an arithmetic trap, the call never comes
  back (it waits for the environment for ever, or the script of the environment's
  answers has run out), or the process is killed by the default action of a signal,
  with no \<open>prg_exit\<close>: the world is left as it was at that moment.
\<close>

datatype 'a outcome = Returns 'a world | Exits int world | Traps | Blocks | Killed signal world

text \<open>
  \<open>prg_exit(code)\<close>: \<open>done_stdin\<close> only restores the terminal (interactive mode
  is off throughout this model, so \<open>check_stdin\<close> and \<open>done_stdin\<close> return at
  once); the handle is closed if it is not \<open>NULL\<close>, the pid file removed if it
  was written.
\<close>

definition prg_exit :: "int \<Rightarrow> world \<Rightarrow> 'a outcome" where
  "prg_exit code w =
     Exits code
       (w\<lparr>handle := (if handle w = Handle_open then Handle_closed else handle w),
          pidfile_exists := (if pidfile_written w then False else pidfile_exists w)\<rparr>)"

text \<open>
  \<open>signal_handler(sig)\<close>, installed for \<open>SIGINT\<close>, \<open>SIGTERM\<close> and \<open>SIGABRT\<close>.
  \<open>snd_pcm_abort\<close> changes nothing that the model keeps, and the messages go to the
  diagnostic stream. In the \<open>SIGABRT\<close> branch the handle is set to \<open>NULL\<close>
  without a close. The last statement sets the disposition of the signal back to
  \<open>SIG_DFL\<close>.
\<close>

definition signal_handler :: "signal \<Rightarrow> world \<Rightarrow> unit outcome" where
  "signal_handler sig w =
     (if in_aborting w then Returns () w
      else if sig = SIGABRT
        then prg_exit EXIT_FAILURE
               (w\<lparr>in_aborting := True,
                  handle := (if handle w = Handle_open then Handle_dropped else handle w)\<rparr>)
        else Returns () (w\<lparr>in_aborting := True, sig_dfl := sig # sig_dfl w\<rparr>))"

text \<open>
  The arrival of a signal, or of none. A signal whose disposition is \<open>SIG_DFL\<close>
  terminates the process at once; otherwise the handler runs. The model lets
  signals arrive at the points named in the environments below: before each read
  of \<open>in_aborting\<close>, after the last such read of \<open>capture\<close>, and in \<open>main\<close>
  after the transfers.
\<close>

definition deliver :: "signal option \<Rightarrow> world \<Rightarrow> unit outcome" where
  "deliver sg w =
     (case sg of
        None \<Rightarrow> Returns () w
      | Some sig \<Rightarrow> if sig \<in> set (sig_dfl w) then Killed sig w else signal_handler sig w)"

subsection \<open>Fault recovery\<close>

datatype snd_pcm_state =
  SND_PCM_STATE_XRUN | SND_PCM_STATE_DRAINING | SND_PCM_STATE_SUSPENDED | SND_PCM_STATE_RUNNING

text \<open>
  What the device answers while \<open>xrun\<close> or \<open>suspend\<close> runs: the result of
  \<open>snd_pcm_status\<close> and the state it reports, the result of \<open>snd_pcm_prepare\<close>,
  and the first result of \<open>snd_pcm_resume\<close> other than \<open>-EAGAIN\<close> (\<open>None\<close> if
  there never is one).
\<close>

record recovery =
  status_res :: int
  status_state :: snd_pcm_state
  prepare_res :: int
  resume_res :: "int option"

definition xrun :: "config \<Rightarrow> recovery \<Rightarrow> world \<Rightarrow> unit outcome" where
  "xrun cfg rc w =
     (if status_res rc < 0 then prg_exit EXIT_FAILURE w
      else if status_state rc = SND_PCM_STATE_XRUN then
        (if fatal_errors cfg then prg_exit EXIT_FAILURE w
         else if prepare_res rc < 0 then prg_exit EXIT_FAILURE w
         else Returns () w)
      else if status_state rc = SND_PCM_STATE_DRAINING \<and> stream cfg = SND_PCM_STREAM_CAPTURE then
        (if prepare_res rc < 0 then prg_exit EXIT_FAILURE w else Returns () w)
      else prg_exit EXIT_FAILURE w)"

definition suspend :: "recovery \<Rightarrow> world \<Rightarrow> unit outcome" where
  "suspend rc w =
     (case resume_res rc of
        None \<Rightarrow> Blocks
      | Some res \<Rightarrow>
          if res < 0 then (if prepare_res rc < 0 then prg_exit EXIT_FAILURE w else Returns () w)
          else Returns () w)"

subsection \<open>One round of a transfer loop\<close>

text \<open>
  The environment of one round of the loops of \<open>pcm_write\<close> and \<open>pcm_read\<close>:
  the signal delivered since the last look at \<open>in_aborting\<close>, the result of
  \<open>writei_func\<close> or \<open>readi_func\<close>, the bytes the device stores on a read, the
  answers during a recovery, and the clock read by the meter.
\<close>

record io_step =
  sig :: "signal option"
  dev_ret :: int
  dev_data :: "byte list"
  recov :: recovery
  now :: int

text \<open>
  The chain of tests on \<open>r\<close> after the device call. \<open>snd_pcm_wait\<close> changes
  nothing here; \<open>do_test_position\<close>, modelled on its own below, touches only its
  own static variables and the diagnostic stream.
\<close>

definition io_fault :: "config \<Rightarrow> io_step \<Rightarrow> nat \<Rightarrow> world \<Rightarrow> unit outcome" where
  "io_fault cfg s count w =
     (let r = dev_ret s in
      if r = - EAGAIN \<or> (0 \<le> r \<and> size_of_int r < count) then Returns () w
      else if r = - EPIPE then xrun cfg (recov s) w
      else if r = - ESTRPIPE then suspend (recov s) w
      else if r < 0 then prg_exit EXIT_FAILURE w
      else Returns () w)"

definition run_meter :: "config \<Rightarrow> int \<Rightarrow> byte list \<Rightarrow> nat \<Rightarrow> world \<Rightarrow> world option" where
  "run_meter cfg tm data samples w =
     (if vumeter cfg \<noteq> VUMETER_NONE
      then map_option (\<lambda>m. w\<lparr>peak := m\<rparr>) (compute_max_peak cfg tm data samples (peak w))
      else Some w)"

text \<open>Writing \<open>bs\<close> into a buffer at byte offset \<open>off\<close>.\<close>

definition store :: "nat \<Rightarrow> byte list \<Rightarrow> byte list \<Rightarrow> byte list" where
  "store off bs buf =
     take off (buf @ replicate (off - length buf) 0) @ bs @ drop (off + length bs) buf"

subsection \<open>Silence\<close>

text \<open>
  \<open>snd_pcm_format_set_silence(format, data, samples)\<close> of the ALSA library, for the
  physical widths of whole bytes on a little-endian host: the bytes it writes at
  \<open>data\<close>, \<open>samples\<close> copies of the low bytes of the silence value.
\<close>

definition silence_sample :: "config \<Rightarrow> byte list" where
  "silence_sample cfg =
     map (\<lambda>i. ucast (drop_bit (8 * i) (silence_64 cfg))) [0..<bits_per_sample cfg div 8]"

definition snd_pcm_format_set_silence :: "config \<Rightarrow> nat \<Rightarrow> byte list" where
  "snd_pcm_format_set_silence cfg samples = concat (replicate samples (silence_sample cfg))"

subsection \<open>Channel remapping\<close>

definition remap_data :: "config \<Rightarrow> byte list \<Rightarrow> nat \<Rightarrow> byte list" where
  "remap_data cfg data count =
     (case hw_map cfg of
        None \<Rightarrow> data
      | Some hm \<Rightarrow>
          (let sample_bytes = bits_per_sample cfg div 8;
               step = bits_per_frame cfg div 8
           in concat (map (\<lambda>i. concat (map (\<lambda>ch.
                  take sample_bytes (drop (i * step + sample_bytes * (hm ! ch)) data))
                [0..<channels cfg])) [0..<count])))"

section \<open>pcm_write\<close>

text \<open>
  The loop \<open>while (count > 0 && !in_aborting)\<close>; \<open>data\<close> is the memory from the
  pointer \<open>data\<close> on. A positive \<open>r\<close> means the device has taken the first
  \<open>r\<close> frames at \<open>data\<close>.
\<close>

fun pcm_write_loop :: "config \<Rightarrow> io_step list \<Rightarrow> byte list \<Rightarrow> nat \<Rightarrow> int \<Rightarrow> world
    \<Rightarrow> int outcome" where
  "pcm_write_loop cfg [] data count result w =
     (if count > 0 \<and> \<not> in_aborting w then Blocks else Returns result w)"
| "pcm_write_loop cfg (s # ss) data count result w =
     (if count = 0 then Returns result w
      else case deliver (sig s) w of
        Returns _ w1 \<Rightarrow>
          if in_aborting w1 then Returns result w1
          else
            (let r = dev_ret s;
                 w2 = (if r > 0
                       then w1\<lparr>device := device w1 @ take (nat r * bits_per_frame cfg div 8) data,
                               device_frames := device_frames w1 + nat r\<rparr>
                       else w1)
             in case io_fault cfg s count w2 of
               Returns _ w3 \<Rightarrow>
                 if r > 0 then
                   (case run_meter cfg (now s) data (nat r * channels cfg) w3 of
                      None \<Rightarrow> Traps
                    | Some w4 \<Rightarrow>
                        pcm_write_loop cfg ss (drop (nat r * bits_per_frame cfg div 8) data)
                          (size_sub count (nat r)) (result + r) w4)
                 else pcm_write_loop cfg ss data count result w3
             | Exits c w' \<Rightarrow> Exits c w'
             | Traps \<Rightarrow> Traps
             | Blocks \<Rightarrow> Blocks
             | Killed k w' \<Rightarrow> Killed k w')
      | Exits c w' \<Rightarrow> Exits c w'
      | Traps \<Rightarrow> Traps
      | Blocks \<Rightarrow> Blocks
      | Killed k w' \<Rightarrow> Killed k w')"

text \<open>
  \<open>pcm_write(data, count)\<close> with \<open>data = audiobuf + doff\<close>: a short request is
  padded in place with silence up to a whole chunk before the loop runs.
\<close>

definition pcm_write :: "config \<Rightarrow> io_step list \<Rightarrow> nat \<Rightarrow> nat \<Rightarrow> world \<Rightarrow> int outcome" where
  "pcm_write cfg ss doff count w =
     (let w1 = (if count < chunk_size cfg
                then w\<lparr>audiobuf :=
                        store (doff + count * bits_per_frame cfg div 8)
                          (snd_pcm_format_set_silence cfg
                             ((chunk_size cfg - count) * channels cfg))
                          (audiobuf w)\<rparr>
                else w);
          count = (if count < chunk_size cfg then chunk_size cfg else count);
          data = remap_data cfg (drop doff (audiobuf w1)) count
      in pcm_write_loop cfg ss data count 0 w1)"

section \<open>pcm_read\<close>

text \<open>
  The loop of \<open>pcm_read\<close>; \<open>doff\<close> is the offset of the pointer \<open>data\<close> in
  \<open>audiobuf\<close>. A positive \<open>r\<close> means the device has stored \<open>r\<close> frames at
  \<open>data\<close>. The loop hands back its local \<open>result\<close>, the frames read.
\<close>

definition frames_of :: "io_step \<Rightarrow> nat \<Rightarrow> byte list" where
  "frames_of s n = take n (dev_data s @ replicate (n - length (dev_data s)) 0)"

fun pcm_read_loop :: "config \<Rightarrow> io_step list \<Rightarrow> nat \<Rightarrow> nat \<Rightarrow> nat \<Rightarrow> world
    \<Rightarrow> nat outcome" where
  "pcm_read_loop cfg [] doff count result w =
     (if count > 0 \<and> \<not> in_aborting w then Blocks else Returns result w)"
| "pcm_read_loop cfg (s # ss) doff count result w =
     (if count = 0 then Returns result w
      else case deliver (sig s) w of
        Returns _ w1 \<Rightarrow>
          if in_aborting w1 then Returns result w1
          else
            (let r = dev_ret s;
                 got = frames_of s (nat r * bits_per_frame cfg div 8);
                 w2 = (if r > 0
                       then w1\<lparr>device := device w1 @ got,
                               device_frames := device_frames w1 + nat r,
                               audiobuf := store doff got (audiobuf w1)\<rparr>
                       else w1)
             in case io_fault cfg s count w2 of
               Returns _ w3 \<Rightarrow>
                 if r > 0 then
                   (case run_meter cfg (now s) (drop doff (audiobuf w3)) (nat r * channels cfg) w3 of
                      None \<Rightarrow> Traps
                    | Some w4 \<Rightarrow>
                        pcm_read_loop cfg ss (doff + nat r * bits_per_frame cfg div 8)
                          (size_sub count (nat r)) (size_add result (nat r)) w4)
                 else pcm_read_loop cfg ss doff count result w3
             | Exits c w' \<Rightarrow> Exits c w'
             | Traps \<Rightarrow> Traps
             | Blocks \<Rightarrow> Blocks
             | Killed k w' \<Rightarrow> Killed k w')
      | Exits c w' \<Rightarrow> Exits c w'
      | Traps \<Rightarrow> Traps
      | Blocks \<Rightarrow> Blocks
      | Killed k w' \<Rightarrow> Killed k w')"

text \<open>
  \<open>pcm_read(data, rcount)\<close> with \<open>data = audiobuf\<close>: the loop always asks for a
  whole chunk, and both the end of the loop and the label \<open>abort\<close> lead to
  \<open>return rcount\<close>.
\<close>

definition pcm_read :: "config \<Rightarrow> io_step list \<Rightarrow> nat \<Rightarrow> world \<Rightarrow> int outcome" where
  "pcm_read cfg ss rcount w =
     (let count = (if rcount \<noteq> chunk_size cfg then chunk_size cfg else rcount)
      in case pcm_read_loop cfg ss 0 count 0 w of
           Returns result w' \<Rightarrow> Returns (ssize_of rcount) w'
         | Exits c w' \<Rightarrow> Exits c w'
         | Traps \<Rightarrow> Traps
         | Blocks \<Rightarrow> Blocks
         | Killed k w' \<Rightarrow> Killed k w')"




text \<open>A world at the start of a stream, with the given transfer buffer and input.\<close>

definition world_init :: "byte list \<Rightarrow> byte list \<Rightarrow> world" where
  "world_init buf inp =
     \<lparr>in_aborting = False, recycle_capture_file = False, audiobuf = buf, device = [],
      device_frames = 0, input = inp, peak = meter_init, files = [], stdout_data = [],
      max_file_size = 0, handle = Handle_open,
      pidfile_written = True, pidfile_exists = True, sig_dfl = []\<rparr>"

text \<open>A round in which the device moves \<open>r\<close> frames and nothing else happens.\<close>

definition quiet_recovery :: recovery where
  "quiet_recovery = \<lparr>status_res = 0, status_state = SND_PCM_STATE_RUNNING, prepare_res = 0,
     resume_res = Some 0\<rparr>"

definition round_of :: "int \<Rightarrow> byte list \<Rightarrow> io_step" where
  "round_of r bs = \<lparr>sig = None, dev_ret = r, dev_data = bs, recov = quiet_recovery, now = 0\<rparr>"

definition signal_round :: "signal \<Rightarrow> io_step" where
  "signal_round sg = \<lparr>sig = Some sg, dev_ret = 0, dev_data = [], recov = quiet_recovery, now = 0\<rparr>"

text \<open>The device never reports more frames than it was asked for.\<close>

fun within_request :: "io_step list \<Rightarrow> nat \<Rightarrow> bool" where
  "within_request [] count = True"
| "within_request (s # ss) count =
     (if count = 0 then True
      else dev_ret s \<le> int count \<and> within_request ss (count - nat (dev_ret s)))"

text \<open>
  An outcome with a function applied to the world it carries; \<open>no_meter\<close> forgets
  the state of the meter, to compare what two runs did apart from metering.
\<close>

fun on_world :: "(world \<Rightarrow> world) \<Rightarrow> 'a outcome \<Rightarrow> 'a outcome" where
  "on_world f (Returns x w) = Returns x (f w)"
| "on_world f (Exits c w) = Exits c (f w)"
| "on_world f Traps = Traps"
| "on_world f Blocks = Blocks"
| "on_world f (Killed k w) = Killed k (f w)"

definition no_meter :: "world \<Rightarrow> world" where
  "no_meter w = w\<lparr>peak := meter_init\<rparr>"


section \<open>The buffer-position monitor\<close>


text \<open>The lines \<open>do_test_position\<close> writes, with their arguments.\<close>

datatype position_out =
    Suspicious_buffer_position int int int nat
  | Suspicious_status_buffer_position int int int nat
  | Suspicious_avail_gt_delay int int int
  | Suspicious_status_avail_gt_delay int int int
  | Bufpos_summary
  | Status_dump int int





text \<open>
  The static variables of \<open>do_test_position\<close>; \<open>availsum\<close>, \<open>delaysum\<close> and
  \<open>samples_seen\<close> (the variable \<open>samples\<close>) are the \<open>float\<close> accumulators.
\<close>

record position =
  counter :: int
  tmr :: int
  availsum :: int
  delaysum :: int
  samples_seen :: int
  maxavail :: int
  maxdelay :: int
  minavail :: int
  mindelay :: int
  badavail :: int
  baddelay :: int
  position_out :: "position_out list"

definition position_init :: position where
  "position_init = \<lparr>counter = 0, tmr = - 1, availsum = 0, delaysum = 0, samples_seen = 0,
     maxavail = 0, maxdelay = 0, minavail = 0, mindelay = 0, badavail = 0, baddelay = 0,
     position_out = []\<rparr>"











section \<open>Names of the capture files\<close>

definition PATH_MAX :: nat where "PATH_MAX = 4096"

definition LLONG_MAX :: int where "LLONG_MAX = 9223372036854775807"

subsection \<open>Formatting a number\<close>

definition digit_char :: "nat \<Rightarrow> char" where
  "digit_char d = ''0123456789'' ! (d mod 10)"

fun digits :: "nat \<Rightarrow> string" where
  "digits n = (if n < 10 then [digit_char n] else digits (n div 10) @ [digit_char (n mod 10)])"

declare digits.simps [simp del]

text \<open>
  The conversions \<open>%02i\<close> and \<open>%02d\<close> of \<open>printf\<close>: at least two characters,
  filled with zeros on the left.
\<close>

definition fmt_02d :: "int \<Rightarrow> string" where
  "fmt_02d n =
     (if n < 0 then CHR ''-'' # digits (nat (- n))
      else (let d = digits (nat n) in if length d < 2 then CHR ''0'' # d else d))"

subsection \<open>The file system\<close>

text \<open>
  The regular files, by name; \<open>remove\<close>, \<open>rename\<close>, the creation by \<open>open\<close>
  with \<open>O_CREAT\<close>, and the contents of a file and their replacement.
\<close>

definition fs_exists :: "string \<Rightarrow> (string \<times> byte list) list \<Rightarrow> bool" where
  "fs_exists name fs = (name \<in> set (map fst fs))"

definition fs_remove :: "string \<Rightarrow> (string \<times> byte list) list \<Rightarrow> (string \<times> byte list) list" where
  "fs_remove name fs = filter (\<lambda>e. fst e \<noteq> name) fs"

definition fs_rename :: "string \<Rightarrow> string \<Rightarrow> (string \<times> byte list) list
    \<Rightarrow> (string \<times> byte list) list" where
  "fs_rename old new fs =
     (if \<not> fs_exists old fs \<or> old = new then fs
      else map (\<lambda>e. if fst e = old then (new, snd e) else e) (fs_remove new fs))"

definition fs_create :: "string \<Rightarrow> (string \<times> byte list) list \<Rightarrow> (string \<times> byte list) list" where
  "fs_create name fs = (if fs_exists name fs then fs else fs @ [(name, [])])"

definition fs_get :: "string \<Rightarrow> (string \<times> byte list) list \<Rightarrow> byte list" where
  "fs_get name fs = (case map_of fs name of None \<Rightarrow> [] | Some d \<Rightarrow> d)"

definition fs_put :: "string \<Rightarrow> byte list \<Rightarrow> (string \<times> byte list) list
    \<Rightarrow> (string \<times> byte list) list" where
  "fs_put name d fs = map (\<lambda>e. if fst e = name then (name, d) else e) fs"

subsection \<open>mystrftime\<close>

text \<open>
  The loop of \<open>mystrftime\<close> that builds \<open>formatstring\<close> from \<open>userformat\<close>:
  \<open>%v\<close> becomes the file number, a \<open>%\<close> with any other character after it is
  copied with that character, a \<open>%\<close> at the very end is copied, and so is every
  other character.
\<close>

fun expand_format :: "string \<Rightarrow> int \<Rightarrow> string" where
  "expand_format [] filenumber = []"
| "expand_format [c] filenumber = [c]"
| "expand_format (c # d # cs) filenumber =
     (if c = CHR ''%'' then
        (if d = CHR ''v'' then fmt_02d filenumber @ expand_format cs filenumber
         else CHR ''%'' # d # expand_format cs filenumber)
      else c # expand_format (d # cs) filenumber)"

text \<open>
  \<open>mystrftime(s, max, userformat, tm, filenumber)\<close> for a non-null \<open>userformat\<close>.
  The function \<open>strftime_tm\<close> stands for the expansion \<open>strftime\<close> of the C library
  gives for the broken-down time \<open>tm\<close>. \<open>strftime\<close> returns 0 when the result with
  its terminator does not fit \<open>max\<close> bytes, otherwise the length of the result:
  \<open>None\<close> is the return value 0, \<open>Some s\<close> the string stored otherwise.
\<close>

definition mystrftime :: "(string \<Rightarrow> string) \<Rightarrow> nat \<Rightarrow> string \<Rightarrow> int \<Rightarrow> string option" where
  "mystrftime strftime_tm maxlen userformat filenumber =
     (let s = strftime_tm (expand_format userformat filenumber)
      in if s = [] \<or> maxlen \<le> length s then None else Some s)"

subsection \<open>new\_capture\_file\<close>

definition char_at :: "string \<Rightarrow> nat \<Rightarrow> char" where
  "char_at buf i = (if i < length buf then buf ! i else CHR 0x00)"

text \<open>\<open>while (s > buf && *s != '.' && *s != '/') --s;\<close> on the index of \<open>s\<close> in \<open>buf\<close>.\<close>

fun scan_back :: "string \<Rightarrow> nat \<Rightarrow> nat" where
  "scan_back buf 0 = 0"
| "scan_back buf (Suc i) =
     (if char_at buf (Suc i) \<noteq> CHR ''.'' \<and> char_at buf (Suc i) \<noteq> CHR ''/''
      then scan_back buf i else Suc i)"

text \<open>
  The copy of the name and the separation of the extension: the pair of the strings
  at \<open>buf\<close> and at \<open>s\<close> afterwards.
\<close>

definition separate_extension :: "string \<Rightarrow> string \<times> string" where
  "separate_extension name =
     (let buf = take (PATH_MAX - 10 - 1) name;
          i = scan_back buf (length buf)
      in if char_at buf i = CHR ''.'' then (take i buf, drop (Suc i) buf)
         else if char_at buf i = CHR ''/'' then (buf, [])
         else (buf, drop i buf))"

text \<open>\<open>snprintf(namebuf, namelen, "%s-%02i.%s", buf, filecount, s)\<close> and its variant without extension.\<close>

definition numbered_name :: "nat \<Rightarrow> string \<Rightarrow> string \<Rightarrow> int \<Rightarrow> string" where
  "numbered_name namelen buf s filecount =
     take (namelen - 1)
       (if s \<noteq> [] then buf @ ''-'' @ fmt_02d filecount @ ''.'' @ s
        else buf @ ''-'' @ fmt_02d filecount)"

definition first_name :: "nat \<Rightarrow> string \<Rightarrow> string \<Rightarrow> string" where
  "first_name namelen buf s =
     take (namelen - 1) (if s \<noteq> [] then buf @ ''-01.'' @ s else buf @ ''-01'')"

text \<open>
  The environment of one pass of the \<open>do\<close> loop of \<open>capture\<close>, that is of one
  output file: whether \<open>localtime\<close> succeeds, the expansion of \<open>strftime\<close> at that
  time, whether \<open>safe_open\<close> succeeds, the environment of each chunk, the
  signal delivered before \<open>in_aborting\<close> is read after the chunks, and the signal
  delivered after that read. For a chunk:
  whether \<open>SIGUSR1\<close> and which other signal arrived before the test of the inner
  loop, the rounds of \<open>pcm_read\<close>, and the results of \<open>write\<close> in \<open>xwrite\<close>.
\<close>

record chunk_env =
  usr1 :: bool
  chunk_sig :: "signal option"
  reads :: "io_step list"
  writes :: "int list"

record file_env =
  localtime_ok :: bool
  strftime_tm :: "string \<Rightarrow> string"
  open_ok :: bool
  chunks :: "chunk_env list"
  end_sig :: "signal option"
  late_sig :: "signal option"

text \<open>
  \<open>new_capture_file(name, namebuf, namelen, filecount)\<close>: the value returned and
  the name left in \<open>namebuf\<close>.
\<close>

definition new_capture_file :: "config \<Rightarrow> file_env \<Rightarrow> string \<Rightarrow> nat \<Rightarrow> int \<Rightarrow> world
    \<Rightarrow> (int \<times> string) outcome" where
  "new_capture_file cfg fe name namelen filecount w =
     (if use_strftime cfg then
        (if \<not> localtime_ok fe then prg_exit EXIT_FAILURE w
         else case mystrftime (strftime_tm fe) namelen name (filecount + 1) of
                None \<Rightarrow> prg_exit EXIT_FAILURE w
              | Some namebuf \<Rightarrow> Returns (filecount, namebuf) w)
      else
        (let (buf, s) = separate_extension name;
             w1 = (if filecount = 1
                   then w\<lparr>files := fs_rename name (first_name namelen buf s)
                                     (fs_remove (first_name namelen buf s) (files w))\<rparr>
                   else w);
             filecount = (if filecount = 1 then 2 else filecount)
         in Returns (filecount, numbered_name namelen buf s filecount) w1))"

subsection \<open>Reading names and templates\<close>

text \<open>The number a string of decimal digits stands for.\<close>

definition digit_value :: "char \<Rightarrow> nat" where
  "digit_value c = of_char c - 48"

definition decimal_value :: "string \<Rightarrow> nat" where
  "decimal_value s = foldl (\<lambda>v c. 10 * v + digit_value c) 0 s"







section \<open>capture\<close>

text \<open>
  \<open>snd_pcm_format_size(format, samples)\<close> of the ALSA library for the physical
  widths of whole bytes: the product is formed in \<open>size_t\<close> and handed back as an
  \<open>ssize_t\<close>. In \<open>calc_count\<close> the two sample counts are products of
  \<open>unsigned int\<close> operands (\<open>hwparams.rate\<close> and \<open>hwparams.channels\<close> are
  \<open>unsigned int\<close>, \<open>sampleslimit\<close> is an \<open>int\<close>), and the product with
  \<open>timelimit\<close> is formed in \<open>off64_t\<close>, where the compiled code wraps.
\<close>

definition snd_pcm_format_size :: "config \<Rightarrow> nat \<Rightarrow> int" where
  "snd_pcm_format_size cfg samples =
     ssize_of ((samples * (bits_per_sample cfg div 8)) mod 2 ^ 64)"

definition calc_count :: "config \<Rightarrow> int \<Rightarrow> int" where
  "calc_count cfg pbrec_count =
     (let count =
        (if timelimit cfg = 0 then
           (if sampleslimit cfg = 0 then pbrec_count
            else snd_pcm_format_size cfg (uint_mul (sampleslimit cfg) (int (channels cfg))))
         else s64 (snd_pcm_format_size cfg (uint_mul (int (rate cfg)) (int (channels cfg)))
                    * timelimit cfg))
      in if count < pbrec_count then count else pbrec_count)"

text \<open>
  The part of the \<open>do\<close> loop that opens the output: the new value of
  \<open>filecount\<close> and the name of the file now open (\<open>None\<close> for the standard
  output); \<open>namebuf_size\<close> is \<open>sizeof(namebuf)\<close>. Every file of the model is a regular file, so \<open>lstat\<close> and \<open>S_ISREG\<close>
  amount to the existence of the name.
\<close>

definition namebuf_size :: nat where
  "namebuf_size = PATH_MAX + 2"

definition open_output :: "config \<Rightarrow> string \<Rightarrow> bool \<Rightarrow> file_env \<Rightarrow> int \<Rightarrow> world
    \<Rightarrow> (int \<times> string option) outcome" where
  "open_output cfg orig_name tostdout fe filecount w =
     (if tostdout then Returns (filecount, None) w
      else
        (case (if filecount \<noteq> 0 \<or> use_strftime cfg
               then new_capture_file cfg fe orig_name namebuf_size filecount w
               else Returns (filecount, orig_name) w) of
           Returns (filecount, name) w1 \<Rightarrow>
             (let w2 = w1\<lparr>files := fs_remove name (files w1)\<rparr>
              in if \<not> open_ok fe then prg_exit EXIT_FAILURE w2
                 else Returns (filecount + 1, Some name) (w2\<lparr>files := fs_create name (files w2)\<rparr>))
         | Exits c w' \<Rightarrow> Exits c w'
         | Traps \<Rightarrow> Traps
         | Blocks \<Rightarrow> Blocks
         | Killed k w' \<Rightarrow> Killed k w'))"

text \<open>The contents of the open output and their replacement after \<open>xwrite\<close>.\<close>

definition output_data :: "string option \<Rightarrow> world \<Rightarrow> byte list" where
  "output_data name w = (case name of None \<Rightarrow> stdout_data w | Some n \<Rightarrow> fs_get n (files w))"

definition set_output :: "string option \<Rightarrow> byte list \<Rightarrow> world \<Rightarrow> world" where
  "set_output name d w =
     (case name of None \<Rightarrow> w\<lparr>stdout_data := d\<rparr> | Some n \<Rightarrow> w\<lparr>files := fs_put n d (files w)\<rparr>)"

text \<open>
  The inner loop \<open>while (rest > 0 && recycle_capture_file == 0 && !in_aborting)\<close>;
  the value handed back is \<open>count\<close>. The division by \<open>bits_per_frame\<close> traps at
  zero.
\<close>

fun capture_chunks :: "config \<Rightarrow> string option \<Rightarrow> chunk_env list \<Rightarrow> int \<Rightarrow> int \<Rightarrow> world
    \<Rightarrow> int outcome" where
  "capture_chunks cfg name [] count rest w =
     (if rest > 0 \<and> \<not> recycle_capture_file w \<and> \<not> in_aborting w then Blocks
      else Returns count w)"
| "capture_chunks cfg name (ce # ces) count rest w =
     (if rest \<le> 0 then Returns count w
      else
        (let w1 = w\<lparr>recycle_capture_file := recycle_capture_file w \<or> usr1 ce\<rparr>
         in if recycle_capture_file w1 then Returns count w1
            else case deliver (chunk_sig ce) w1 of
              Returns _ w2 \<Rightarrow>
                if in_aborting w2 then Returns count w2
                else if bits_per_frame cfg = 0 then Traps
                else
                  (let c = (if rest \<le> int (chunk_bytes cfg) then nat rest else chunk_bytes cfg);
                       f = c * 8 div bits_per_frame cfg
                   in case pcm_read cfg (reads ce) f w2 of
                     Returns rd w3 \<Rightarrow>
                       (let w4 = (if size_of_int rd \<noteq> f then w3\<lparr>in_aborting := True\<rparr> else w3);
                            save = size_of_int rd * bits_per_frame cfg div 8
                        in case xwrite (writes ce) (audiobuf w4) save (output_data name w4) of
                          None \<Rightarrow> Blocks
                        | Some (wr, d) \<Rightarrow>
                            if size_of_int wr \<noteq> save
                            then Returns count ((set_output name d w4)\<lparr>in_aborting := True\<rparr>)
                            else capture_chunks cfg name ces (count - int c) (rest - int c)
                                   (set_output name d w4))
                   | Exits x w' \<Rightarrow> Exits x w'
                   | Traps \<Rightarrow> Traps
                   | Blocks \<Rightarrow> Blocks
                   | Killed k w' \<Rightarrow> Killed k w')
            | Exits x w' \<Rightarrow> Exits x w'
            | Traps \<Rightarrow> Traps
            | Blocks \<Rightarrow> Blocks
            | Killed k w' \<Rightarrow> Killed k w'))"

text \<open>
  The \<open>do ... while ((!timelimit && !sampleslimit) || count > 0)\<close> loop, one pass
  for each output file. \<open>end_sig\<close> arrives before the test of \<open>in_aborting\<close>
  that follows the chunks, \<open>late_sig\<close> after it.
\<close>

fun capture_files :: "config \<Rightarrow> string \<Rightarrow> bool \<Rightarrow> file_env list \<Rightarrow> int \<Rightarrow> int \<Rightarrow> world
    \<Rightarrow> unit outcome" where
  "capture_files cfg orig_name tostdout [] filecount count w = Blocks"
| "capture_files cfg orig_name tostdout (fe # fes) filecount count w =
     (case open_output cfg orig_name tostdout fe filecount w of
        Returns (filecount, name) w1 \<Rightarrow>
          (case capture_chunks cfg name (chunks fe) count count w1 of
             Returns count w2 \<Rightarrow>
               (case deliver (end_sig fe) (w2\<lparr>recycle_capture_file := False\<rparr>) of
                  Returns _ w3 \<Rightarrow>
                    if in_aborting w3 then prg_exit EXIT_FAILURE w3
                    else
                      (case deliver (late_sig fe) w3 of
                         Returns _ w4 \<Rightarrow>
                           if (timelimit cfg = 0 \<and> sampleslimit cfg = 0) \<or> count > 0
                           then capture_files cfg orig_name tostdout fes filecount count w4
                           else Returns () w4
                       | Exits x w' \<Rightarrow> Exits x w'
                       | Traps \<Rightarrow> Traps
                       | Blocks \<Rightarrow> Blocks
                       | Killed k w' \<Rightarrow> Killed k w')
                | Exits x w' \<Rightarrow> Exits x w'
                | Traps \<Rightarrow> Traps
                | Blocks \<Rightarrow> Blocks
                | Killed k w' \<Rightarrow> Killed k w')
           | Exits x w' \<Rightarrow> Exits x w'
           | Traps \<Rightarrow> Traps
           | Blocks \<Rightarrow> Blocks
           | Killed k w' \<Rightarrow> Killed k w')
      | Exits x w' \<Rightarrow> Exits x w'
      | Traps \<Rightarrow> Traps
      | Blocks \<Rightarrow> Blocks
      | Killed k w' \<Rightarrow> Killed k w')"

text \<open>
  \<open>capture(orig_name)\<close>, with \<open>None\<close> for a null name. \<open>max_file_size\<close> is
  computed and stored; nothing reads it afterwards.
\<close>

definition capture :: "config \<Rightarrow> string option \<Rightarrow> file_env list \<Rightarrow> world \<Rightarrow> unit outcome" where
  "capture cfg orig_name fes w =
     (let count = calc_count cfg LLONG_MAX;
          count = (if count = 0 then LLONG_MAX else count);
          w1 = w\<lparr>max_file_size :=
                   s64 (max_file_time cfg
                        * snd_pcm_format_size cfg (uint_mul (int (rate cfg)) (int (channels cfg))))\<rparr>;
          count = (if count < LLONG_MAX then count + c_mod count 2 else count - c_mod count 2);
          tostdout = (orig_name = None \<or> orig_name = Some ''-'')
      in capture_files cfg (case orig_name of None \<Rightarrow> [] | Some n \<Rightarrow> n) tostdout fes 0 count w1)"

section \<open>playback\<close>

text \<open>
  One \<open>read\<close> of \<open>safe_read\<close>: the signal delivered before \<open>in_aborting\<close> is
  read, and the result of \<open>read\<close>, which moves that many bytes of the input to the
  buffer.
\<close>

record read_step =
  read_sig :: "signal option"
  read_ret :: int

fun safe_read :: "read_step list \<Rightarrow> nat \<Rightarrow> nat \<Rightarrow> int \<Rightarrow> world \<Rightarrow> int outcome" where
  "safe_read [] off count result w =
     (if count > 0 \<and> \<not> in_aborting w then Blocks else Returns result w)"
| "safe_read (s # ss) off count result w =
     (if count = 0 then Returns result w
      else case deliver (read_sig s) w of
        Returns _ w1 \<Rightarrow>
          if in_aborting w1 then Returns result w1
          else
            (let res = read_ret s in
             if res = 0 then Returns result w1
             else if res < 0 then Returns (if result > 0 then result else res) w1
             else safe_read ss (off + nat res) (size_sub count (nat res)) (result + res)
                    (w1\<lparr>audiobuf := store off (take (nat res) (input w1)) (audiobuf w1),
                        input := drop (nat res) (input w1)\<rparr>))
      | Exits x w' \<Rightarrow> Exits x w'
      | Traps \<Rightarrow> Traps
      | Blocks \<Rightarrow> Blocks
      | Killed k w' \<Rightarrow> Killed k w')"

text \<open>
  The inner \<open>do ... while ((size_t)l < chunk_bytes)\<close> loop of \<open>playback_go\<close>, with
  one script for each call of \<open>safe_read\<close>; the value handed back is \<open>l\<close>.
\<close>

fun fill_chunk :: "config \<Rightarrow> read_step list list \<Rightarrow> int \<Rightarrow> int \<Rightarrow> int \<Rightarrow> world \<Rightarrow> int outcome" where
  "fill_chunk cfg [] count written l w =
     (let c = count - written;
          c = (if c > int (chunk_bytes cfg) then int (chunk_bytes cfg) else c);
          l = (if c < l then c else l);
          c = c - l
      in if c = 0 then Returns l w else Blocks)"
| "fill_chunk cfg (rs # rss) count written l w =
     (let c = count - written;
          c = (if c > int (chunk_bytes cfg) then int (chunk_bytes cfg) else c);
          l = (if c < l then c else l);
          c = c - l
      in if c = 0 then Returns l w
         else case safe_read rs (nat l) (size_of_int c) 0 w of
           Returns r w1 \<Rightarrow>
             if r < 0 then prg_exit EXIT_FAILURE w1
             else if r = 0 then Returns l w1
             else if size_of_int (l + r) < chunk_bytes cfg
             then fill_chunk cfg rss count written (l + r) w1
             else Returns (l + r) w1
         | Exits x w' \<Rightarrow> Exits x w'
         | Traps \<Rightarrow> Traps
         | Blocks \<Rightarrow> Blocks
         | Killed k w' \<Rightarrow> Killed k w')"

text \<open>
  The environment of one pass of the main loop of \<open>playback_go\<close>: the signal
  before its test, the scripts of the calls of \<open>safe_read\<close>, the rounds of
  \<open>pcm_write\<close>.
\<close>

record play_env =
  play_sig :: "signal option"
  play_reads :: "read_step list list"
  play_write :: "io_step list"

text \<open>
  \<open>playback_go(fd, loaded, count, name)\<close> for \<open>loaded = 0\<close>, the value its only
  caller passes: the first loop and the \<open>memmove\<close> do nothing then, and \<open>l\<close>
  starts at 0. The draining of the device at the end changes nothing here.
\<close>

fun playback_loop :: "config \<Rightarrow> play_env list \<Rightarrow> int \<Rightarrow> int \<Rightarrow> int \<Rightarrow> world \<Rightarrow> unit outcome" where
  "playback_loop cfg [] count written l w =
     (if written < count \<and> \<not> in_aborting w then Blocks else Returns () w)"
| "playback_loop cfg (pe # pes) count written l w =
     (if \<not> written < count then Returns () w
      else case deliver (play_sig pe) w of
        Returns _ w1 \<Rightarrow>
          if in_aborting w1 then Returns () w1
          else if bits_per_frame cfg = 0 then Traps
          else
            (case fill_chunk cfg (play_reads pe) count written l w1 of
               Returns l w2 \<Rightarrow>
                 (let l = c_div (l * 8) (int (bits_per_frame cfg))
                  in case pcm_write cfg (play_write pe) 0 (size_of_int l) w2 of
                    Returns r w3 \<Rightarrow>
                      if r \<noteq> l then Returns () w3
                      else playback_loop cfg pes count
                             (written + c_div (r * int (bits_per_frame cfg)) 8) 0 w3
                  | Exits x w' \<Rightarrow> Exits x w'
                  | Traps \<Rightarrow> Traps
                  | Blocks \<Rightarrow> Blocks
                  | Killed k w' \<Rightarrow> Killed k w')
             | Exits x w' \<Rightarrow> Exits x w'
             | Traps \<Rightarrow> Traps
             | Blocks \<Rightarrow> Blocks
             | Killed k w' \<Rightarrow> Killed k w')
      | Exits x w' \<Rightarrow> Exits x w'
      | Traps \<Rightarrow> Traps
      | Blocks \<Rightarrow> Blocks
      | Killed k w' \<Rightarrow> Killed k w')"

definition playback_go :: "config \<Rightarrow> play_env list \<Rightarrow> int \<Rightarrow> world \<Rightarrow> unit outcome" where
  "playback_go cfg pes count w = playback_loop cfg pes count 0 0 w"

text \<open>
  \<open>playback(name)\<close>: the input is opened (\<open>opened\<close> tells whether \<open>open\<close>
  succeeds; the standard input is always there), then \<open>playback_raw\<close> computes the
  count and runs \<open>playback_go\<close>.
\<close>

definition playback :: "config \<Rightarrow> string option \<Rightarrow> bool \<Rightarrow> play_env list \<Rightarrow> world \<Rightarrow> unit outcome" where
  "playback cfg name opened pes w =
     (if name \<noteq> None \<and> name \<noteq> Some ''-'' \<and> \<not> opened then prg_exit EXIT_FAILURE w
      else playback_go cfg pes (calc_count cfg LLONG_MAX) w)"

section \<open>The end of main\<close>

text \<open>
  The environment of one call of \<open>playback\<close> or \<open>capture\<close> from \<open>main\<close>: the
  file argument (\<open>None\<close> for the null pointer of a command line without file
  arguments), whether the input can be opened, the passes of the playback loop,
  and the output files of the capture loop.
\<close>

record stream_env =
  arg :: "string option"
  openable :: bool
  passes :: "play_env list"
  outputs :: "file_env list"

text \<open>
  The \<open>while (optind <= argc - 1)\<close> loop of the interleaved branch of \<open>main\<close>:
  one call for each file argument, in order.
\<close>

fun transfers :: "config \<Rightarrow> stream_env list \<Rightarrow> world \<Rightarrow> unit outcome" where
  "transfers cfg [] w = Returns () w"
| "transfers cfg (se # ses) w =
     (case (if stream cfg = SND_PCM_STREAM_PLAYBACK
            then playback cfg (arg se) (openable se) (passes se) w
            else capture cfg (arg se) (outputs se) w) of
        Returns _ w1 \<Rightarrow> transfers cfg ses w1
      | Exits x w' \<Rightarrow> Exits x w'
      | Traps \<Rightarrow> Traps
      | Blocks \<Rightarrow> Blocks
      | Killed k w' \<Rightarrow> Killed k w')"

text \<open>
  The interleaved branch of \<open>main\<close> from the first call of \<open>playback\<close> or
  \<open>capture\<close> to \<open>prg_exit(EXIT_SUCCESS)\<close>; \<open>se\<close> is the first call (the only
  one when there is no file argument, or just one), \<open>ses\<close> are the calls for the
  further file arguments. When the transfers have returned, the signal \<open>exit_sig\<close>
  may still arrive; then the handle is closed and set to \<open>NULL\<close>, and the process
  exits with success.
\<close>

definition main_transfer :: "config \<Rightarrow> stream_env \<Rightarrow> stream_env list \<Rightarrow> signal option
    \<Rightarrow> world \<Rightarrow> unit outcome" where
  "main_transfer cfg se ses exit_sig w =
     (case transfers cfg (se # ses) w of
        Returns _ w1 \<Rightarrow>
          (case deliver exit_sig w1 of
             Returns _ w2 \<Rightarrow>
               prg_exit EXIT_SUCCESS (w2\<lparr>handle := Handle_closed\<rparr>)
           | Exits x w' \<Rightarrow> Exits x w'
           | Traps \<Rightarrow> Traps
           | Blocks \<Rightarrow> Blocks
           | Killed k w' \<Rightarrow> Killed k w')
      | Exits x w' \<Rightarrow> Exits x w'
      | Traps \<Rightarrow> Traps
      | Blocks \<Rightarrow> Blocks
      | Killed k w' \<Rightarrow> Killed k w')"


text \<open>
  Environments for concrete runs: a chunk in which the device produces the four
  frames \<open>d\<close> at once and \<open>write\<close> takes \<open>n\<close> bytes at once, with or without
  \<open>SIGUSR1\<close> before it; a file whose opening succeeds, with the given chunks; a
  pass of playback that reads \<open>n\<close> bytes at once (0 at the end of the input) and
  whose device takes four frames at once.
\<close>

definition quiet_chunk :: "byte list \<Rightarrow> int \<Rightarrow> chunk_env" where
  "quiet_chunk d n = \<lparr>usr1 = False, chunk_sig = None, reads = [round_of 4 d], writes = [n]\<rparr>"

definition usr1_chunk :: chunk_env where
  "usr1_chunk = \<lparr>usr1 = True, chunk_sig = None, reads = [], writes = []\<rparr>"

definition quiet_file :: "chunk_env list \<Rightarrow> file_env" where
  "quiet_file cs = \<lparr>localtime_ok = True, strftime_tm = (\<lambda>s. s), open_ok = True, chunks = cs,
     end_sig = None, late_sig = None\<rparr>"


definition signal_pass :: "signal \<Rightarrow> play_env" where
  "signal_pass sg = \<lparr>play_sig = Some sg, play_reads = [], play_write = []\<rparr>"

text \<open>
  What every way out of a transfer has in common. A call that returns leaves the
  PCM handle and the pid file as they were. An exit from inside the transfer has the
  status \<open>EXIT_FAILURE\<close>, leaves the handle closed (or dropped, after \<open>SIGABRT\<close>),
  and leaves no pid file behind if one was written.
\<close>

definition same_process :: "world \<Rightarrow> world \<Rightarrow> bool" where
  "same_process w w' \<longleftrightarrow>
     handle w' = handle w \<and> pidfile_written w' = pidfile_written w \<and>
     pidfile_exists w' = pidfile_exists w"

definition failure_exit :: "world \<Rightarrow> int \<Rightarrow> world \<Rightarrow> bool" where
  "failure_exit w c w' \<longleftrightarrow>
     c = EXIT_FAILURE \<and> handle w' \<noteq> Handle_open \<and>
     (if pidfile_written w then \<not> pidfile_exists w' else True)"

definition orderly :: "world \<Rightarrow> 'a outcome \<Rightarrow> bool" where
  "orderly w out =
     (case out of
        Returns _ w' \<Rightarrow> same_process w w'
      | Exits c w' \<Rightarrow> failure_exit w c w'
      | Traps \<Rightarrow> True
      | Blocks \<Rightarrow> True
      | Killed _ _ \<Rightarrow> True)"

text \<open>A chunk before whose test of the inner loop the signal \<open>sg\<close> arrives.\<close>

definition signal_chunk :: "signal \<Rightarrow> chunk_env" where
  "signal_chunk sg = \<lparr>usr1 = False, chunk_sig = Some sg, reads = [], writes = []\<rparr>"

section \<open>The example configurations\<close>

lemma cfg_s16_fields:
  "stream cfg_s16 = SND_PCM_STREAM_PLAYBACK" "channels cfg_s16 = 2" "rate cfg_s16 = 44100"
  "bits_per_sample cfg_s16 = 16" "significant_bits_per_sample cfg_s16 = 16"
  "format_little_endian cfg_s16 = True" "silence_64 cfg_s16 = 0" "chunk_size cfg_s16 = 2"
  "buffer_frames cfg_s16 = 8" "vumeter cfg_s16 = VUMETER_STEREO" "interleaved cfg_s16 = True"
  "verbose cfg_s16 = 0" "test_coef cfg_s16 = 8" "fatal_errors cfg_s16 = False"
  "hw_map cfg_s16 = None" "timelimit cfg_s16 = 0" "sampleslimit cfg_s16 = 0"
  "max_file_time cfg_s16 = 0" "use_strftime cfg_s16 = False"
  by (simp_all add: cfg_s16_def)



lemma cfg_capture_fields:
  "stream cfg_capture = SND_PCM_STREAM_CAPTURE" "channels cfg_capture = 1" "rate cfg_capture = 8000"
  "bits_per_sample cfg_capture = 8" "significant_bits_per_sample cfg_capture = 8"
  "format_little_endian cfg_capture = True" "silence_64 cfg_capture = 0x8080808080808080"
  "chunk_size cfg_capture = 4"
  "buffer_frames cfg_capture = 16" "vumeter cfg_capture = VUMETER_NONE" "interleaved cfg_capture = True"
  "verbose cfg_capture = 0" "test_coef cfg_capture = 8" "fatal_errors cfg_capture = False"
  "hw_map cfg_capture = None" "timelimit cfg_capture = 0" "sampleslimit cfg_capture = 0"
  "max_file_time cfg_capture = 0" "use_strftime cfg_capture = False"
  by (simp_all add: cfg_capture_def cfg_u8_def)

lemma cfg_capture_10_fields:
  "stream cfg_capture_10 = SND_PCM_STREAM_CAPTURE" "channels cfg_capture_10 = 1"
  "rate cfg_capture_10 = 4"
  "bits_per_sample cfg_capture_10 = 8" "significant_bits_per_sample cfg_capture_10 = 8"
  "format_little_endian cfg_capture_10 = True" "silence_64 cfg_capture_10 = 0x8080808080808080"
  "chunk_size cfg_capture_10 = 4"
  "buffer_frames cfg_capture_10 = 16" "vumeter cfg_capture_10 = VUMETER_NONE"
  "interleaved cfg_capture_10 = True"
  "verbose cfg_capture_10 = 0" "test_coef cfg_capture_10 = 8" "fatal_errors cfg_capture_10 = False"
  "hw_map cfg_capture_10 = None" "timelimit cfg_capture_10 = 0" "sampleslimit cfg_capture_10 = 10"
  "max_file_time cfg_capture_10 = 1" "use_strftime cfg_capture_10 = False"
  by (simp_all add: cfg_capture_10_def cfg_u8_def)






lemmas transfer_defs = pcm_write_def pcm_read_def bits_per_frame_def chunk_bytes_def
  store_def remap_data_def round_of_def
  signal_round_def world_init_def io_fault_def run_meter_def size_sub_def size_add_def
  size_of_int_def ssize_of_def EAGAIN_def EPIPE_def ESTRPIPE_def deliver_def
  signal_handler_def prg_exit_def frames_of_def quiet_recovery_def EXIT_FAILURE_def
  EXIT_SUCCESS_def

lemmas meter_defs = peak_percent_def scan_peaks_def val_8_def val_16_def val_24_def val_32_def
  full_scale_def clamp_peak_def perc_of_def ichans_def c_abs_def c_div_def s32_def byte_at_def
  snd_pcm_format_silence_def snd_pcm_format_silence_16_def snd_pcm_format_silence_32_def
  supported_bits_def

lemma fs_exists_simps [simp]:
  "fs_exists n [] = False"
  "fs_exists n (e # fs) = (n = fst e \<or> fs_exists n fs)"
  by (auto simp: fs_exists_def)

lemma fs_remove_simps [simp]:
  "fs_remove n [] = []"
  "fs_remove n (e # fs) = (if fst e \<noteq> n then e # fs_remove n fs else fs_remove n fs)"
  by (simp_all add: fs_remove_def)

lemmas capture_defs = capture_def calc_count_def snd_pcm_format_size_def LLONG_MAX_def c_mod_def
  c_div_def open_output_def new_capture_file_def fs_rename_def
  fs_create_def fs_get_def fs_put_def output_data_def set_output_def xwrite_def PATH_MAX_def
  namebuf_size_def quiet_chunk_def usr1_chunk_def quiet_file_def uint_mul_def s64_def


section \<open>Properties of xwrite\<close>

lemma xwrite_loop_total:
  assumes "count < 2 ^ 63" and "offset \<le> count"
    and "write_contract ws count offset" and "count - offset \<le> length ws"
  shows "\<exists>r f. xwrite_loop ws buf count offset fdata = Some (r, f)"
  using assms
proof (induction ws arbitrary: offset fdata)
  case Nil
  then show ?case by simp
next
  case (Cons w ws)
  show ?case
  proof (cases "offset < count \<and> 0 < w")
    case True
    then have le: "offset + nat w \<le> count" using Cons.prems(3) by (simp, linarith)
    then have eq: "size_add offset (nat w) = offset + nat w"
      using Cons.prems(1) by (simp add: size_add_def)
    have "write_contract ws count (offset + nat w)"
      using True Cons.prems(3) by simp
    moreover have "count - (offset + nat w) \<le> length ws"
      using True Cons.prems(4) by (simp, linarith)
    ultimately show ?thesis
      using Cons.IH [of "offset + nat w"] Cons.prems(1) le True eq by simp
  next
    case False
    then show ?thesis by auto
  qed
qed

lemma xwrite_loop_result:
  assumes "count < 2 ^ 63" and "offset \<le> count" and "count \<le> length buf"
    and "write_contract ws count offset"
    and "xwrite_loop ws buf count offset (pre @ take offset buf) = Some (r, f)"
  shows "(r = int count \<and> f = pre @ take count buf) \<or>
         (r \<le> 0 \<and> r \<in> set ws \<and> (\<exists>k < count. f = pre @ take k buf))"
  using assms
proof (induction ws arbitrary: offset)
  case Nil
  then show ?case by (simp add: ssize_of_def split: if_splits)
next
  case (Cons w ws)
  show ?case
  proof (cases "offset < count")
    case False
    then have "offset = count" using Cons.prems(2) by simp
    then show ?thesis using Cons.prems by (simp add: ssize_of_def)
  next
    case lt: True
    show ?thesis
    proof (cases "w \<le> 0")
      case True
      then show ?thesis using lt Cons.prems(5) by auto
    next
      case False
      then have le: "offset + nat w \<le> count" using lt Cons.prems(4) by (simp, linarith)
      then have eq: "size_add offset (nat w) = offset + nat w"
        using Cons.prems(1) by (simp add: size_add_def)
      have tk: "take offset buf @ take (nat w) (drop offset buf) = take (offset + nat w) buf"
        by (simp add: take_add)
      have "xwrite_loop ws buf count (offset + nat w) (pre @ take (offset + nat w) buf)
              = Some (r, f)"
        using Cons.prems(5) lt False eq tk by simp
      moreover have "write_contract ws count (offset + nat w)"
        using lt False Cons.prems(4) by simp
      ultimately show ?thesis
        using Cons.IH [of "offset + nat w"] Cons.prems(1,3) le by auto
    qed
  qed
qed

text \<open>
  C10. For a \<open>count\<close> that fits \<open>ssize_t\<close>, a buffer of at least \<open>count\<close> bytes and
  \<open>write\<close> results that respect the contract: once the script holds at least
  \<open>count\<close> results \<open>xwrite\<close> returns; it returns \<open>count\<close> if and only if the file
  has received the whole buffer; and any other return value is the zero or negative
  result of a \<open>write\<close> call, returned as it is.
\<close>

theorem xwrite_count_iff_all_written:
  assumes "count < 2 ^ 63" and "count \<le> length buf"
    and "write_contract ws count 0" and "count \<le> length ws"
  shows "\<exists>r f. xwrite ws buf count fdata = Some (r, f) \<and>
           (r = int count \<longleftrightarrow> f = fdata @ take count buf) \<and>
           (r \<noteq> int count \<longrightarrow> r \<le> 0 \<and> r \<in> set ws)"
proof -
  obtain r f where rf: "xwrite_loop ws buf count 0 fdata = Some (r, f)"
    using xwrite_loop_total [of count 0 ws buf fdata] assms by auto
  then have "xwrite_loop ws buf count 0 (fdata @ take 0 buf) = Some (r, f)" by simp
  from xwrite_loop_result [OF assms(1) _ assms(2,3) this]
  have d: "(r = int count \<and> f = fdata @ take count buf) \<or>
         (r \<le> 0 \<and> r \<in> set ws \<and> (\<exists>k < count. f = fdata @ take k buf))" by simp
  have ne: "\<And>k. k < count \<Longrightarrow> take k buf \<noteq> take count buf"
  proof
    fix k assume "k < count" and "take k buf = take count buf"
    then have "length (take k buf) = length (take count buf)" by simp
    then show False using \<open>k < count\<close> assms(2) by simp
  qed
  show ?thesis using rf d ne by (auto simp: xwrite_def)
qed

theorem xwrite_count_iff_all_written_witness:
  "xwrite [2, 1, 1] [10, 20, 30] 3 [] = Some (3, [10, 20, 30]) \<and>
   xwrite [2, -1, 1] [10, 20, 30] 3 [] = Some (-1, [10, 20])"
proof -
  have h: "(3::nat) < 2 ^ 63" "3 \<le> length [10, 20, 30 :: byte]" by simp_all
  have c1: "write_contract [2, 1, 1] 3 0" and c2: "write_contract [2, -1, 1] 3 0"
    by simp_all
  have l1: "3 \<le> length [2 :: int, 1, 1]" and l2: "3 \<le> length [2 :: int, -1, 1]"
    by simp_all
  from xwrite_count_iff_all_written [OF h c1 l1, of "[]"]
    xwrite_count_iff_all_written [OF h c2 l2, of "[]"]
  show ?thesis by (simp add: xwrite_def size_add_def ssize_of_def)
qed

section \<open>Properties of the peak meter\<close>

lemma peak_loop_nonneg:
  "0 \<le> fst mp \<Longrightarrow> 0 \<le> snd mp \<Longrightarrow>
   0 \<le> fst (peak_loop dec w stereo samples valp c mp) \<and>
   0 \<le> snd (peak_loop dec w stereo samples valp c mp)"
proof (induction samples arbitrary: valp c mp)
  case 0
  then show ?case by simp
next
  case (Suc n)
  show ?case
    unfolding peak_loop.simps Let_def
    by (rule Suc.IH) (use Suc.prems in \<open>auto\<close>)
qed

lemma scan_peaks_nonneg:
  "0 \<le> fst (scan_peaks cfg valp samples) \<and> 0 \<le> snd (scan_peaks cfg valp samples)"
  unfolding scan_peaks_def Let_def
  by (auto intro: peak_loop_nonneg [THEN conjunct1] peak_loop_nonneg [THEN conjunct2])

lemma full_scale_small:
  assumes "1 \<le> significant_bits_per_sample cfg" and "significant_bits_per_sample cfg \<le> 31"
  shows "full_scale cfg = 2 ^ (significant_bits_per_sample cfg - 1)"
proof -
  let ?n = "significant_bits_per_sample cfg - 1"
  have "?n < 31" using assms by simp
  then have lt: "(2::int) ^ ?n < 2 ^ 31" by (rule power_strict_increasing) simp
  have "signed_take_bit 31 ((2::int) ^ ?n) = 2 ^ ?n"
    by (rule signed_take_bit_int_eq_self) (use lt in \<open>auto intro: order_trans [of _ 0]\<close>)
  then show ?thesis by (simp add: full_scale_def s32_def push_bit_of_1 Let_def)
qed

lemma full_scale_32:
  assumes "significant_bits_per_sample cfg = 32"
  shows "full_scale cfg = 2 ^ 31 - 1"
  using assms by (simp add: full_scale_def s32_def Let_def signed_take_bit_eq_take_bit_minus)

lemma full_scale_bounds:
  assumes "1 \<le> significant_bits_per_sample cfg" and "significant_bits_per_sample cfg \<le> 32"
  shows "0 < full_scale cfg" and "full_scale cfg \<le> 2 ^ (significant_bits_per_sample cfg - 1)"
    and "full_scale cfg < 2 ^ 31"
proof -
  consider "significant_bits_per_sample cfg \<le> 31" | "significant_bits_per_sample cfg = 32"
    using assms(2) by linarith
  then have "0 < full_scale cfg \<and> full_scale cfg \<le> 2 ^ (significant_bits_per_sample cfg - 1)
      \<and> full_scale cfg < 2 ^ 31"
  proof cases
    case 1
    let ?n = "significant_bits_per_sample cfg - 1"
    have "?n < 31" using 1 assms(1) by simp
    then have "(2::int) ^ ?n < 2 ^ 31" by (rule power_strict_increasing) simp
    then show ?thesis using full_scale_small [OF assms(1) 1] by simp
  next
    case 2
    then show ?thesis using full_scale_32 [OF 2] by simp
  qed
  then show "0 < full_scale cfg" and "full_scale cfg \<le> 2 ^ (significant_bits_per_sample cfg - 1)"
    and "full_scale cfg < 2 ^ 31" by simp_all
qed

lemma full_scale_wide:
  assumes "16 < significant_bits_per_sample cfg" and "significant_bits_per_sample cfg \<le> 32"
  shows "2 ^ 16 \<le> full_scale cfg"
proof -
  consider "significant_bits_per_sample cfg \<le> 31" | "significant_bits_per_sample cfg = 32"
    using assms(2) by linarith
  then show ?thesis
  proof cases
    case 1
    have "(2::int) ^ 16 \<le> 2 ^ (significant_bits_per_sample cfg - 1)"
      by (rule power_increasing) (use assms(1) in simp_all)
    then show ?thesis using full_scale_small [OF _ 1] assms(1) by simp
  next
    case 2
    then show ?thesis using full_scale_32 [OF 2] by simp
  qed
qed

lemma c_div_nonneg: "0 \<le> a \<Longrightarrow> 0 < b \<Longrightarrow> c_div a b = a div b"
  by (cases "a = 0") (simp_all add: c_div_def)

lemma clamp_peak_bounds: "0 \<le> p \<Longrightarrow> 0 < m \<Longrightarrow> 0 \<le> clamp_peak m p \<and> clamp_peak m p \<le> m"
  by (simp add: clamp_peak_def)

lemma perc_wide:
  fixes m p :: int
  assumes "2 ^ 16 \<le> m" and "0 \<le> p" and "p \<le> m"
  shows "0 < m div 100" and "0 \<le> p div (m div 100)" and "p div (m div 100) \<le> 100"
proof -
  have q: "655 \<le> m div 100" using assms(1) by simp
  then show "0 < m div 100" by simp
  show "0 \<le> p div (m div 100)" using assms(2) q by (simp add: pos_imp_zdiv_nonneg_iff)
  have r: "0 \<le> m mod 100" "m mod 100 < m div 100"
    using q by (simp_all add: order_less_le_trans [of _ 100])
  have "m = m mod 100 + (m div 100) * 100" by simp
  then have "m div (m div 100) = (m mod 100 + (m div 100) * 100) div (m div 100)" by simp
  also have "\<dots> = 100 + (m mod 100) div (m div 100)"
    using q by (subst div_mult_self2) simp_all
  also have "\<dots> = 100" using r by (simp add: div_pos_pos_trivial)
  finally have "m div (m div 100) = 100" .
  moreover have "p div (m div 100) \<le> m div (m div 100)"
    by (rule zdiv_mono1) (use assms(3) q in simp_all)
  ultimately show "p div (m div 100) \<le> 100" by simp
qed

lemma perc_narrow:
  fixes m p :: int
  assumes "0 < m" and "m \<le> 2 ^ 15" and "0 \<le> p" and "p \<le> m"
  shows "s32 (p * 100) = p * 100" and "0 \<le> (p * 100) div m" and "(p * 100) div m \<le> 100"
proof -
  have "p * 100 < 2 ^ 31" using assms by simp
  moreover have "- (2 ^ 31) \<le> p * 100" using assms(3) by simp
  ultimately show "s32 (p * 100) = p * 100"
    unfolding s32_def by (intro signed_take_bit_int_eq_self) simp_all
  show "0 \<le> (p * 100) div m" using assms by (simp add: pos_imp_zdiv_nonneg_iff)
  have "p * 100 \<le> 100 * m" using assms by simp
  then have "(p * 100) div m \<le> (100 * m) div m" by (rule zdiv_mono1) (use assms in simp)
  then show "(p * 100) div m \<le> 100" using assms(1) by simp
qed

lemma perc_of_bounds:
  assumes sup: "supported_bits (bits_per_sample cfg)"
    and sb1: "1 \<le> significant_bits_per_sample cfg"
    and sb2: "significant_bits_per_sample cfg \<le> bits_per_sample cfg"
    and wide: "16 < bits_per_sample cfg \<longrightarrow> 16 < significant_bits_per_sample cfg"
    and p: "0 \<le> p" "p \<le> full_scale cfg"
  shows "\<exists>q. perc_of cfg (full_scale cfg) p = Some q \<and> 0 \<le> q \<and> q \<le> 100"
proof (cases "16 < bits_per_sample cfg")
  case True
  have le32: "significant_bits_per_sample cfg \<le> 32"
    using sup sb2 by (auto simp: supported_bits_def)
  have big: "2 ^ 16 \<le> full_scale cfg" using full_scale_wide True wide le32 by simp
  then have pos: "0 < full_scale cfg" by simp
  note w = perc_wide [OF big p]
  have d1: "c_div (full_scale cfg) 100 = full_scale cfg div 100"
    using pos by (simp add: c_div_nonneg)
  have d2: "c_div p (full_scale cfg div 100) = p div (full_scale cfg div 100)"
    using p(1) w(1) by (simp add: c_div_nonneg)
  show ?thesis using True w d1 d2 by (simp add: perc_of_def)
next
  case False
  then have b: "bits_per_sample cfg = 8 \<or> bits_per_sample cfg = 16"
    using sup by (auto simp: supported_bits_def)
  then have le16: "significant_bits_per_sample cfg \<le> 16" using sb2 by auto
  then have le31: "significant_bits_per_sample cfg \<le> 31" by simp
  have fs: "full_scale cfg = 2 ^ (significant_bits_per_sample cfg - 1)"
    using full_scale_small [OF sb1 le31] .
  have "(2::int) ^ (significant_bits_per_sample cfg - 1) \<le> 2 ^ 15"
    by (rule power_increasing) (use le16 in simp_all)
  then have small: "full_scale cfg \<le> 2 ^ 15" using fs by simp
  have pos: "0 < full_scale cfg" using fs by simp
  note n = perc_narrow [OF pos small p]
  have "c_div (p * 100) (full_scale cfg) = (p * 100) div full_scale cfg"
    using p(1) pos by (simp add: c_div_nonneg)
  then show ?thesis using False n by (simp add: perc_of_def)
qed

lemma peak_percent_total:
  assumes "supported_bits (bits_per_sample cfg)"
    and "1 \<le> significant_bits_per_sample cfg"
    and "significant_bits_per_sample cfg \<le> bits_per_sample cfg"
    and "16 < bits_per_sample cfg \<longrightarrow> 16 < significant_bits_per_sample cfg"
  shows "\<exists>max_peak perc. peak_percent cfg data samples = Some (max_peak, perc) \<and>
           length max_peak = ichans cfg \<and> length perc = ichans cfg \<and>
           (\<forall>p \<in> set max_peak. 0 \<le> p \<and> p \<le> 2 ^ (significant_bits_per_sample cfg - 1)) \<and>
           (\<forall>q \<in> set perc. 0 \<le> q \<and> q \<le> 100)"
proof -
  let ?mp = "scan_peaks cfg data samples"
  let ?m = "full_scale cfg"
  have le32: "significant_bits_per_sample cfg \<le> 32"
    using assms(1,3) by (auto simp: supported_bits_def)
  note fs = full_scale_bounds [OF assms(2) le32]
  have c0: "0 \<le> clamp_peak ?m (fst ?mp) \<and> clamp_peak ?m (fst ?mp) \<le> ?m"
    using clamp_peak_bounds scan_peaks_nonneg fs(1) by blast
  have c1: "0 \<le> clamp_peak ?m (snd ?mp) \<and> clamp_peak ?m (snd ?mp) \<le> ?m"
    using clamp_peak_bounds scan_peaks_nonneg fs(1) by blast
  obtain q0 where q0: "perc_of cfg ?m (clamp_peak ?m (fst ?mp)) = Some q0" "0 \<le> q0" "q0 \<le> 100"
    using perc_of_bounds [OF assms] c0 by blast
  obtain q1 where q1: "perc_of cfg ?m (clamp_peak ?m (snd ?mp)) = Some q1" "0 \<le> q1" "q1 \<le> 100"
    using perc_of_bounds [OF assms] c1 by blast
  have i: "ichans cfg = 1 \<or> ichans cfg = 2" by (simp add: ichans_def)
  show ?thesis
    using i q0 q1 c0 c1 fs(2) by (auto simp: peak_percent_def Let_def)
qed



text \<open>
  C6. For a supported physical width, a format whose significant bits fit the
  physical width, and more than 16 significant bits where the physical width
  exceeds 16 (as every format of such a width has): for every chunk of samples the
  meter traps nowhere, each per-channel peak lies between \<open>0\<close> and the full-scale
  value \<open>2 ^ (significant_bits_per_sample - 1)\<close>, and each percentage lies in
  \<open>[0, 100]\<close>. The percentage therefore never exceeds 100, whatever the input.
\<close>

theorem peak_percent_bounds:
  assumes "supported_bits (bits_per_sample cfg)"
    and "1 \<le> significant_bits_per_sample cfg"
    and "significant_bits_per_sample cfg \<le> bits_per_sample cfg"
    and "16 < bits_per_sample cfg \<longrightarrow> 16 < significant_bits_per_sample cfg"
  shows "\<exists>max_peak perc. peak_percent cfg data samples = Some (max_peak, perc) \<and>
           length max_peak = ichans cfg \<and> length perc = ichans cfg \<and>
           (\<forall>p \<in> set max_peak. 0 \<le> p \<and> p \<le> 2 ^ (significant_bits_per_sample cfg - 1)) \<and>
           (\<forall>q \<in> set perc. 0 \<le> q \<and> q \<le> 100)"
  using assms by (rule peak_percent_total)

theorem peak_percent_bounds_witness:
  "supported_bits (bits_per_sample cfg_s16) \<and>
   1 \<le> significant_bits_per_sample cfg_s16 \<and>
   significant_bits_per_sample cfg_s16 \<le> bits_per_sample cfg_s16 \<and>
   peak_percent cfg_s16 [0x00, 0x80, 0x10, 0x00] (Suc (Suc 0)) = Some ([32768, 16], [100, 0])"
  using peak_percent_bounds [of cfg_s16 "[0x00, 0x80, 0x10, 0x00]" "Suc (Suc 0)"]
  by (simp add: meter_defs cfg_s16_fields Let_def)

section \<open>Properties of the transfer loops\<close>

lemma deliver_None [simp]: "deliver None w = Returns () w"
  by (simp add: deliver_def)

lemma deliver_Returns:
  assumes "deliver sg w = Returns u w1"
  shows "w1 = w \<or> (\<exists>sg. w1 = w\<lparr>in_aborting := True, sig_dfl := sg # sig_dfl w\<rparr>)"
  using assms
  by (auto simp: deliver_def signal_handler_def prg_exit_def split: option.splits if_splits)

lemma deliver_same:
  assumes "deliver sg w = Returns u w1"
  shows "device w1 = device w" "device_frames w1 = device_frames w" "audiobuf w1 = audiobuf w"
    "peak w1 = peak w" "files w1 = files w" "handle w1 = handle w"
    "pidfile_written w1 = pidfile_written w" "pidfile_exists w1 = pidfile_exists w"
    "input w1 = input w" "recycle_capture_file w1 = recycle_capture_file w"
    "stdout_data w1 = stdout_data w" "max_file_size w1 = max_file_size w"
  using deliver_Returns [OF assms] by auto

lemma io_fault_Returns:
  assumes "io_fault cfg s count w = Returns u w1"
  shows "w1 = w"
  using assms
  by (auto simp: io_fault_def xrun_def suspend_def prg_exit_def Let_def
      split: if_splits option.splits)

lemma run_meter_Some:
  assumes "run_meter cfg tm data samples w = Some w1"
  shows "\<exists>m. w1 = w\<lparr>peak := m\<rparr>"
proof (cases "vumeter cfg = VUMETER_NONE")
  case True
  then have "w1 = w\<lparr>peak := peak w\<rparr>" using assms by (simp add: run_meter_def)
  then show ?thesis ..
next
  case False
  then obtain m where "w1 = w\<lparr>peak := m\<rparr>" using assms by (auto simp: run_meter_def)
  then show ?thesis ..
qed


text \<open>The value returned by the loop of \<open>pcm_write\<close> counts the frames the device took.\<close>

lemma pcm_write_loop_counts:
  assumes "pcm_write_loop cfg ss data count result w = Returns res w'"
  shows "res - result = int (device_frames w') - int (device_frames w)"
  using assms
proof (induction ss arbitrary: data count result w)
  case Nil
  then show ?case by (simp split: if_splits)
next
  case (Cons s ss)
  show ?case
  proof (cases "count = 0")
    case True
    then show ?thesis using Cons.prems by simp
  next
    case False
    then obtain u w1 where d: "deliver (sig s) w = Returns u w1"
      using Cons.prems by (simp split: outcome.splits)
    note same = deliver_same [OF d]
    show ?thesis
    proof (cases "in_aborting w1")
      case True
      then show ?thesis using Cons.prems False d same by simp
    next
      case na: False
      define r where "r = dev_ret s"
      define w2 where "w2 = (if r > 0
          then w1\<lparr>device := device w1 @ take (nat r * bits_per_frame cfg div 8) data,
                  device_frames := device_frames w1 + nat r\<rparr> else w1)"
      obtain u3 w3 where f: "io_fault cfg s count w2 = Returns u3 w3"
        using Cons.prems False d na unfolding r_def w2_def
        by (simp add: Let_def split: outcome.splits)
      have w3: "w3 = w2" using io_fault_Returns [OF f] .
      show ?thesis
      proof (cases "r > 0")
        case True
        then obtain w4 where m: "run_meter cfg (now s) data (nat r * channels cfg) w2 = Some w4"
          using Cons.prems False d na f w3 unfolding r_def w2_def
          by (simp add: Let_def split: option.splits)
        then obtain pm where w4: "w4 = w2\<lparr>peak := pm\<rparr>" using run_meter_Some by blast
        have rec: "pcm_write_loop cfg ss (drop (nat r * bits_per_frame cfg div 8) data)
             (size_sub count (nat r)) (result + r) w4 = Returns res w'"
          using Cons.prems False d na f w3 m True unfolding r_def w2_def
          by (simp add: Let_def)
        have "device_frames w4 = device_frames w + nat r"
          using w4 True same by (simp add: w2_def)
        then show ?thesis using Cons.IH [OF rec] True by simp
      next
        case nr: False
        have rec: "pcm_write_loop cfg ss data count result w2 = Returns res w'"
          using Cons.prems False d na f w3 nr unfolding r_def w2_def
          by (simp add: Let_def)
        have "device_frames w2 = device_frames w" using nr same by (simp add: w2_def)
        then show ?thesis using Cons.IH [OF rec] by simp
      qed
    qed
  qed
qed

lemma pcm_write_counts:
  assumes "pcm_write cfg ss doff count w = Returns res w'"
  shows "res = int (device_frames w') - int (device_frames w)"
  using assms pcm_write_loop_counts [of cfg ss _ _ 0 _ res w']
  unfolding pcm_write_def Let_def by (fastforce split: if_splits)




text \<open>
  In a run of the loop of \<open>pcm_read\<close> that ends with no abort seen, on a device that
  keeps to what it is asked for, the frames read are the frames asked for.
\<close>

lemma pcm_read_loop_complete:
  assumes "within_request ss count" and "result + count < 2 ^ 64"
    and "pcm_read_loop cfg ss doff count result w = Returns res w'"
    and "\<not> in_aborting w'"
  shows "res = result + count \<and> device_frames w' = device_frames w + count"
  using assms
proof (induction ss arbitrary: doff count result w)
  case Nil
  then show ?case by (simp split: if_splits)
next
  case (Cons s ss)
  show ?case
  proof (cases "count = 0")
    case True
    then show ?thesis using Cons.prems by simp
  next
    case False
    then obtain u w1 where d: "deliver (sig s) w = Returns u w1"
      using Cons.prems(3) by (simp split: outcome.splits)
    note same = deliver_same [OF d]
    have na: "\<not> in_aborting w1"
      using Cons.prems(3,4) False d by (auto split: if_splits)
    define r where "r = dev_ret s"
    define got where "got = frames_of s (nat r * bits_per_frame cfg div 8)"
    define w2 where "w2 = (if r > 0
        then w1\<lparr>device := device w1 @ got, device_frames := device_frames w1 + nat r,
                audiobuf := store doff got (audiobuf w1)\<rparr> else w1)"
    have rle: "r \<le> int count" and wr: "within_request ss (count - nat r)"
      using Cons.prems(1) False by (simp_all add: r_def)
    obtain u3 w3 where f: "io_fault cfg s count w2 = Returns u3 w3"
      using Cons.prems(3) False d na unfolding r_def w2_def got_def
      by (simp add: Let_def split: outcome.splits)
    have w3: "w3 = w2" using io_fault_Returns [OF f] .
    show ?thesis
    proof (cases "r > 0")
      case True
      then obtain w4 where m: "run_meter cfg (now s) (drop doff (audiobuf w2))
          (nat r * channels cfg) w2 = Some w4"
        using Cons.prems(3) False d na f w3 unfolding r_def w2_def got_def
        by (simp add: Let_def split: option.splits)
      then obtain pm where w4: "w4 = w2\<lparr>peak := pm\<rparr>" using run_meter_Some by blast
      have le: "nat r \<le> count" using rle True by simp
      have sa: "size_add result (nat r) = result + nat r"
        using Cons.prems(2) le by (simp add: size_add_def)
      have rec: "pcm_read_loop cfg ss (doff + nat r * bits_per_frame cfg div 8)
           (count - nat r) (result + nat r) w4 = Returns res w'"
        using Cons.prems(3) False d na f w3 m True le sa unfolding r_def w2_def got_def
        by (simp add: Let_def size_sub_def)
      have "result + nat r + (count - nat r) < 2 ^ 64" using Cons.prems(2) le by simp
      from Cons.IH [OF wr this rec Cons.prems(4)]
      have "res = result + nat r + (count - nat r)"
        and "device_frames w' = device_frames w4 + (count - nat r)" by simp_all
      moreover have "device_frames w4 = device_frames w + nat r"
        using w4 True same by (simp add: w2_def)
      ultimately show ?thesis using le by simp
    next
      case nr: False
      have rec: "pcm_read_loop cfg ss doff count result w2 = Returns res w'"
        using Cons.prems(3) False d na f w3 nr unfolding r_def w2_def got_def
        by (simp add: Let_def)
      have "nat r = 0" using nr by simp
      then have wr': "within_request ss count" using wr by simp
      have "device_frames w2 = device_frames w" using nr same by (simp add: w2_def)
      then show ?thesis using Cons.IH [OF wr' Cons.prems(2) rec Cons.prems(4)] by simp
    qed
  qed
qed

subsection \<open>Silence and channel remapping\<close>
















section \<open>Properties of the buffer-position monitor\<close>






section \<open>Exits of the capture path\<close>

lemma same_process_refl [simp]: "same_process w w"
  by (simp add: same_process_def)

lemma same_process_trans: "same_process w w1 \<Longrightarrow> same_process w1 w2 \<Longrightarrow> same_process w w2"
  by (simp add: same_process_def)

lemma failure_exit_trans: "same_process w w1 \<Longrightarrow> failure_exit w1 c w' \<Longrightarrow> failure_exit w c w'"
  by (simp add: same_process_def failure_exit_def)

lemma orderly_simps [simp]:
  "orderly w (Returns x w') = same_process w w'"
  "orderly w (Exits c w') = failure_exit w c w'"
  "orderly w Traps" "orderly w Blocks" "orderly w (Killed k w')"
  by (simp_all add: orderly_def)

lemma orderly_trans:
  "same_process w w1 \<Longrightarrow> orderly w1 out \<Longrightarrow> orderly w out"
  by (cases out) (auto intro: same_process_trans failure_exit_trans)

lemma orderly_prg_exit:
  "pidfile_written w1 = pidfile_written w \<Longrightarrow> orderly w (prg_exit EXIT_FAILURE w1)"
  by (simp add: failure_exit_def prg_exit_def)

lemma orderly_deliver: "orderly w (deliver sg w)"
  by (cases sg)
    (auto simp: deliver_def signal_handler_def failure_exit_def prg_exit_def same_process_def)

lemma orderly_io_fault: "orderly w (io_fault cfg s count w)"
  by (auto simp: io_fault_def xrun_def suspend_def Let_def orderly_prg_exit
      split: option.splits)

lemma deliver_same_process: "deliver sg w = Returns u w1 \<Longrightarrow> same_process w w1"
  using orderly_deliver [of w sg] by simp

lemma deliver_Exits: "deliver sg w = Exits c w' \<Longrightarrow> failure_exit w c w'"
  using orderly_deliver [of w sg] by simp

lemma io_fault_Exits: "io_fault cfg s count w = Exits c w' \<Longrightarrow> failure_exit w c w'"
  using orderly_io_fault [of w cfg s count] by simp

lemma run_meter_same_process: "run_meter cfg tm d n w = Some w1 \<Longrightarrow> same_process w w1"
  using run_meter_Some [of cfg tm d n w w1] by (auto simp: same_process_def)

lemma orderly_pcm_read_loop: "orderly w (pcm_read_loop cfg ss doff count result w)"
proof (induction ss arbitrary: doff count result w)
  case Nil
  then show ?case by simp
next
  case (Cons s ss)
  have tr: "same_process w v \<Longrightarrow> orderly w (pcm_read_loop cfg ss d n k v)" for v d n k
    using Cons.IH [of v d n k] orderly_trans by blast
  show ?case
  proof (cases "count = 0")
    case True
    then show ?thesis by simp
  next
    case nz: False
    show ?thesis
    proof (cases "deliver (sig s) w")
      case (Returns u w1)
      note sp = deliver_same_process [OF Returns]
      show ?thesis
      proof (cases "in_aborting w1")
        case True
        then show ?thesis using nz Returns sp by simp
      next
        case na: False
        show ?thesis
        proof (cases "dev_ret s > 0")
          case True
          let ?got = "frames_of s (nat (dev_ret s) * bits_per_frame cfg div 8)"
          let ?w2 = "w1\<lparr>device := device w1 @ ?got,
              device_frames := device_frames w1 + nat (dev_ret s),
              audiobuf := store doff ?got (audiobuf w1)\<rparr>"
          have sp2: "same_process w ?w2" using sp by (simp add: same_process_def)
          show ?thesis
          proof (cases "io_fault cfg s count ?w2")
            case iof: (Returns u3 w3)
            then have w3: "w3 = ?w2" by (rule io_fault_Returns)
            show ?thesis
            proof (cases "run_meter cfg (now s) (drop doff (audiobuf ?w2))
                (nat (dev_ret s) * channels cfg) ?w2")
              case None
              then show ?thesis using nz Returns na True iof w3 by (simp add: Let_def)
            next
              case (Some w4)
              then have "same_process w w4"
                using run_meter_same_process sp2 same_process_trans by blast
              then show ?thesis
                using nz Returns na True iof w3 Some by (simp add: Let_def tr)
            qed
          next
            case (Exits c w')
            then have "failure_exit w c w'"
              using io_fault_Exits sp2 failure_exit_trans by blast
            then show ?thesis using nz Returns na True Exits by (simp add: Let_def)
          next
            case Traps
            then show ?thesis using nz Returns na True by (simp add: Let_def)
          next
            case Blocks
            then show ?thesis using nz Returns na True by (simp add: Let_def)
          next
            case (Killed k w')
            then show ?thesis using nz Returns na True by (simp add: Let_def)
          qed
        next
          case False
          show ?thesis
          proof (cases "io_fault cfg s count w1")
            case iof: (Returns u3 w3)
            then have w3: "w3 = w1" by (rule io_fault_Returns)
            show ?thesis using nz Returns na False iof w3 sp by (simp add: Let_def tr)
          next
            case (Exits c w')
            then have "failure_exit w c w'"
              using io_fault_Exits sp failure_exit_trans by blast
            then show ?thesis using nz Returns na False Exits by (simp add: Let_def)
          next
            case Traps
            then show ?thesis using nz Returns na False by (simp add: Let_def)
          next
            case Blocks
            then show ?thesis using nz Returns na False by (simp add: Let_def)
          next
            case (Killed k w')
            then show ?thesis using nz Returns na False by (simp add: Let_def)
          qed
        qed
      qed
    next
      case (Exits c w')
      then show ?thesis using nz deliver_Exits [OF Exits] by simp
    next
      case Traps
      then show ?thesis using nz by simp
    next
      case Blocks
      then show ?thesis using nz by simp
    next
      case (Killed k w')
      then show ?thesis using nz by simp
    qed
  qed
qed

lemma pcm_read_count [simp]:
  "(if rcount \<noteq> chunk_size cfg then chunk_size cfg else rcount) = chunk_size cfg"
  by simp

lemma orderly_pcm_read: "orderly w (pcm_read cfg ss rcount w)"
proof -
  have "orderly w (pcm_read_loop cfg ss 0 (chunk_size cfg) 0 w)"
    by (rule orderly_pcm_read_loop)
  then show ?thesis
    unfolding pcm_read_def Let_def pcm_read_count
    by (cases "pcm_read_loop cfg ss 0 (chunk_size cfg) 0 w") simp_all
qed

lemma pcm_read_Returns: "pcm_read cfg ss rcount w = Returns rd w' \<Longrightarrow> rd = ssize_of rcount"
  unfolding pcm_read_def Let_def pcm_read_count
  by (cases "pcm_read_loop cfg ss 0 (chunk_size cfg) 0 w") simp_all

lemma same_process_set_output [simp]: "same_process w (set_output name d w1) = same_process w w1"
  by (cases name) (simp_all add: set_output_def same_process_def)

lemma same_process_flags [simp]:
  "same_process w (w1\<lparr>in_aborting := b\<rparr>) = same_process w w1"
  "same_process w (w1\<lparr>recycle_capture_file := b\<rparr>) = same_process w w1"
  "same_process w (w1\<lparr>files := fs\<rparr>) = same_process w w1"
  "same_process w (w1\<lparr>max_file_size := n\<rparr>) = same_process w w1"
  by (simp_all add: same_process_def)

lemma orderly_capture_chunks: "orderly w (capture_chunks cfg name ces count rest w)"
proof (induction ces arbitrary: count rest w)
  case Nil
  then show ?case by simp
next
  case (Cons ce ces)
  have tr: "same_process w v \<Longrightarrow> orderly w (capture_chunks cfg name ces n k v)" for v n k
    using Cons.IH [of v n k] orderly_trans by blast
  let ?w1 = "w\<lparr>recycle_capture_file := recycle_capture_file w \<or> usr1 ce\<rparr>"
  show ?case
  proof (cases "rest \<le> 0 \<or> recycle_capture_file w \<or> usr1 ce")
    case True
    then show ?thesis by (auto simp: Let_def)
  next
    case go: False
    show ?thesis
    proof (cases "deliver (chunk_sig ce) ?w1")
      case (Returns u w2)
      have sp2: "same_process w w2"
        using deliver_same_process [OF Returns] by (simp add: same_process_def)
      show ?thesis
      proof (cases "in_aborting w2 \<or> bits_per_frame cfg = 0")
        case True
        then show ?thesis using go Returns sp2 by (auto simp: Let_def)
      next
        case False
        let ?c = "if rest \<le> int (chunk_bytes cfg) then nat rest else chunk_bytes cfg"
        let ?f = "?c * 8 div bits_per_frame cfg"
        show ?thesis
        proof (cases "pcm_read cfg (reads ce) ?f w2")
          case rd: (Returns rd w3)
          have sp3: "same_process w w3"
            using orderly_pcm_read [of w2 cfg "reads ce" ?f] rd sp2 same_process_trans
            by fastforce
          let ?w4 = "if size_of_int rd \<noteq> ?f then w3\<lparr>in_aborting := True\<rparr> else w3"
          have sp4: "same_process w ?w4" using sp3 by simp
          show ?thesis
          proof (cases "xwrite (writes ce) (audiobuf ?w4)
              (size_of_int rd * bits_per_frame cfg div 8) (output_data name ?w4)")
            case None
            then show ?thesis using go Returns False rd by (simp add: Let_def)
          next
            case (Some p)
            obtain wr d where p: "p = (wr, d)" by (cases p)
            have sp5: "same_process w (set_output name d ?w4)" using sp4 by simp
            show ?thesis
              using go Returns False rd Some p sp5 tr [OF sp5] sp3
              by (simp add: Let_def)
          qed
        next
          case (Exits x w')
          then have "failure_exit w x w'"
            using orderly_pcm_read [of w2 cfg "reads ce" ?f] sp2 failure_exit_trans by fastforce
          then show ?thesis using go Returns False Exits by (simp add: Let_def)
        next
          case Traps
          then show ?thesis using go Returns False by (simp add: Let_def)
        next
          case Blocks
          then show ?thesis using go Returns False by (simp add: Let_def)
        next
          case (Killed k w')
          then show ?thesis using go Returns False by (simp add: Let_def)
        qed
      qed
    next
      case (Exits x w')
      then have "failure_exit w x w'"
        using deliver_Exits [OF Exits] by (simp add: failure_exit_def)
      then show ?thesis using go Exits by (simp add: Let_def)
    next
      case Traps
      then show ?thesis using go by (simp add: Let_def)
    next
      case Blocks
      then show ?thesis using go by (simp add: Let_def)
    next
      case (Killed k w')
      then show ?thesis using go by (simp add: Let_def)
    qed
  qed
qed

lemma orderly_new_capture_file: "orderly w (new_capture_file cfg fe name namelen filecount w)"
  by (auto simp: new_capture_file_def Let_def orderly_prg_exit split: option.splits prod.splits)

lemma orderly_open_output: "orderly w (open_output cfg orig_name tostdout fe filecount w)"
proof (cases "tostdout \<or> \<not> (filecount \<noteq> 0 \<or> use_strftime cfg)")
  case True
  then show ?thesis
    by (auto simp: open_output_def Let_def orderly_prg_exit)
next
  case False
  show ?thesis
  proof (cases "new_capture_file cfg fe orig_name namebuf_size filecount w")
    case (Returns p w1)
    obtain fc nm where p: "p = (fc, nm)" by (cases p)
    have sp: "same_process w w1"
      using orderly_new_capture_file [of w cfg fe orig_name namebuf_size filecount] Returns
      by simp
    then have "orderly w (prg_exit EXIT_FAILURE (w1\<lparr>files := fs_remove nm (files w1)\<rparr>))"
      by (intro orderly_prg_exit) (simp add: same_process_def)
    then show ?thesis
      using False Returns p sp by (auto simp: open_output_def Let_def)
  next
    case (Exits x w')
    then show ?thesis
      using False orderly_new_capture_file [of w cfg fe orig_name namebuf_size filecount]
      by (auto simp: open_output_def)
  next
    case Traps
    then show ?thesis using False by (auto simp: open_output_def)
  next
    case Blocks
    then show ?thesis using False by (auto simp: open_output_def)
  next
    case (Killed k w')
    then show ?thesis using False by (auto simp: open_output_def)
  qed
qed

text \<open>
  Every way out of the loop over the output files, and of \<open>capture\<close>: a return
  leaves the handle and the pid file as they were, and an exit from inside is an
  exit with failure after the clean-up.
\<close>

lemma orderly_capture_files:
  "orderly w (capture_files cfg orig_name tostdout fes filecount count w)"
proof (induction fes arbitrary: filecount count w)
  case Nil
  then show ?case by simp
next
  case (Cons fe fes)
  have tr: "same_process w v \<Longrightarrow> orderly w (capture_files cfg orig_name tostdout fes n k v)"
    for v n k
    using Cons.IH [of v n k] orderly_trans by blast
  show ?case
  proof (cases "open_output cfg orig_name tostdout fe filecount w")
    case op: (Returns p w1)
    obtain fc nm where p: "p = (fc, nm)" by (cases p)
    have sp1: "same_process w w1"
      using orderly_open_output [of w cfg orig_name tostdout fe filecount] op by simp
    show ?thesis
    proof (cases "capture_chunks cfg nm (chunks fe) count count w1")
      case ch: (Returns count1 w2)
      have sp2: "same_process w w2"
        using orderly_capture_chunks [of w1 cfg nm "chunks fe" count count] ch sp1
          same_process_trans by fastforce
      show ?thesis
      proof (cases "deliver (end_sig fe) (w2\<lparr>recycle_capture_file := False\<rparr>)")
        case dl: (Returns u w3)
        have sp3: "same_process w w3"
          using deliver_same_process [OF dl] sp2 by (simp add: same_process_def)
        show ?thesis
        proof (cases "in_aborting w3")
          case True
          have "failure_exit w EXIT_FAILURE
            (w3\<lparr>handle := if handle w3 = Handle_open then Handle_closed else handle w3,
                pidfile_exists := if pidfile_written w3 then False else pidfile_exists w3\<rparr>)"
            using sp3 by (simp add: failure_exit_def same_process_def)
          then show ?thesis using op p ch dl True by (simp add: prg_exit_def)
        next
          case na: False
          show ?thesis
          proof (cases "deliver (late_sig fe) w3")
            case lt: (Returns u4 w4)
            have sp4: "same_process w w4"
              using deliver_same_process [OF lt] sp3 same_process_trans by blast
            show ?thesis using op p ch dl na lt sp4 tr [OF sp4] by simp
          next
            case (Exits x w')
            have "failure_exit w x w'"
              using deliver_Exits [OF Exits] sp3 failure_exit_trans by blast
            then show ?thesis using op p ch dl na Exits by simp
          next
            case Traps
            then show ?thesis using op p ch dl na by simp
          next
            case Blocks
            then show ?thesis using op p ch dl na by simp
          next
            case (Killed k w')
            then show ?thesis using op p ch dl na by simp
          qed
        qed
      next
        case (Exits x w')
        have "failure_exit w x w'"
          using deliver_Exits [OF Exits] sp2 by (simp add: failure_exit_def same_process_def)
        then show ?thesis using op p ch Exits by simp
      next
        case Traps
        then show ?thesis using op p ch by simp
      next
        case Blocks
        then show ?thesis using op p ch by simp
      next
        case (Killed k w')
        then show ?thesis using op p ch by simp
      qed
    next
      case (Exits x w')
      have "failure_exit w x w'"
        using orderly_capture_chunks [of w1 cfg nm "chunks fe" count count] Exits sp1
          failure_exit_trans by fastforce
      then show ?thesis using op p Exits by simp
    next
      case Traps
      then show ?thesis using op p by simp
    next
      case Blocks
      then show ?thesis using op p by simp
    next
      case (Killed k w')
      then show ?thesis using op p by simp
    qed
  next
    case (Exits x w')
    then show ?thesis
      using orderly_open_output [of w cfg orig_name tostdout fe filecount] by simp
  next
    case Traps
    then show ?thesis by simp
  next
    case Blocks
    then show ?thesis by simp
  next
    case (Killed k w')
    then show ?thesis by simp
  qed
qed

lemma orderly_capture: "orderly w (capture cfg name fes w)"
proof -
  have "orderly w (capture_files cfg nm t fes 0 n (w\<lparr>max_file_size := k\<rparr>))" for nm t n k
    using orderly_capture_files [of "w\<lparr>max_file_size := k\<rparr>" cfg nm t fes 0 n]
    by (rule orderly_trans [rotated]) (simp add: same_process_def)
  then show ?thesis unfolding capture_def Let_def by simp
qed

section \<open>Properties of the file names\<close>

lemma digit_char_value: "d < 10 \<Longrightarrow> digit_value (digit_char d) = d"
proof -
  assume "d < 10"
  then have "d \<in> {0, 1, 2, 3, 4, 5, 6, 7, 8, 9}" by auto
  then show ?thesis
    by (auto simp: digit_char_def digit_value_def)
qed

lemma digits_small: "n < 10 \<Longrightarrow> digits n = [digit_char n]"
  by (subst digits.simps) simp

lemma digits_large: "10 \<le> n \<Longrightarrow> digits n = digits (n div 10) @ [digit_char (n mod 10)]"
  by (subst digits.simps) simp

lemma decimal_value_snoc: "decimal_value (s @ [c]) = 10 * decimal_value s + digit_value c"
  by (simp add: decimal_value_def)

lemma decimal_value_digits: "decimal_value (digits n) = n"
proof (induction n rule: digits.induct)
  case (1 n)
  show ?case
  proof (cases "n < 10")
    case True
    then show ?thesis by (simp add: digits_small decimal_value_def digit_char_value)
  next
    case False
    then show ?thesis using 1 by (simp add: digits_large decimal_value_snoc digit_char_value)
  qed
qed

lemma digits_nonempty: "digits n \<noteq> []"
  by (cases "n < 10") (simp_all add: digits_small digits_large)

lemma length_digits_pos: "1 \<le> length (digits n)"
  using digits_nonempty [of n] by (cases "digits n") simp_all

lemma length_digits_one: "n < 10 \<Longrightarrow> length (digits n) = 1"
  by (simp add: digits_small)

lemma length_digits_step: "10 \<le> n \<Longrightarrow> length (digits n) = Suc (length (digits (n div 10)))"
  by (simp add: digits_large)

lemma length_digits_two: "10 \<le> n \<Longrightarrow> n < 100 \<Longrightarrow> length (digits n) = 2"
  by (simp add: length_digits_step length_digits_one)

lemma length_digits_three: "100 \<le> n \<Longrightarrow> 3 \<le> length (digits n)"
proof -
  assume a: "100 \<le> n"
  then have "10 \<le> n div 10" by simp
  then have "length (digits (n div 10)) = Suc (length (digits (n div 10 div 10)))"
    by (rule length_digits_step)
  then show ?thesis using a length_digits_pos [of "n div 10 div 10"]
    by (simp add: length_digits_step)
qed

lemma digits_bound: "10 ^ (length (digits n) - 1) \<le> max n 1"
proof (induction n rule: digits.induct)
  case (1 n)
  show ?case
  proof (cases "n < 10")
    case True
    then show ?thesis by (simp add: length_digits_one)
  next
    case False
    then have l: "length (digits n) - 1 = Suc (length (digits (n div 10)) - 1)"
      using length_digits_pos [of "n div 10"] by (simp add: length_digits_step)
    have "1 \<le> n div 10" using False by simp
    then have m: "max (n div 10) 1 = n div 10" by simp
    have "(10::nat) ^ (length (digits n) - 1) = 10 * 10 ^ (length (digits (n div 10)) - 1)"
      unfolding l by simp
    also have "\<dots> \<le> 10 * (n div 10)" using 1 False m by simp
    also have "\<dots> \<le> n" by simp
    finally show ?thesis by simp
  qed
qed

lemma length_digits_int:
  assumes "n < 2 ^ 31"
  shows "length (digits n) \<le> 10"
proof (rule ccontr)
  assume "\<not> length (digits n) \<le> 10"
  then have "10 \<le> length (digits n) - 1" by simp
  then have "(10::nat) ^ 10 \<le> 10 ^ (length (digits n) - 1)"
    by (rule power_increasing) simp
  also have "\<dots> \<le> max n 1" by (rule digits_bound)
  finally show False using assms by simp
qed

text \<open>The conversion \<open>%02d\<close> of a number that is not negative.\<close>

lemma fmt_02d_small: "0 \<le> n \<Longrightarrow> n < 10 \<Longrightarrow> fmt_02d n = [CHR ''0'', digit_char (nat n)]"
  by (simp add: fmt_02d_def Let_def digits_small)

lemma fmt_02d_large: "10 \<le> n \<Longrightarrow> fmt_02d n = digits (nat n)"
proof -
  assume a: "10 \<le> n"
  then have "10 \<le> nat n" by simp
  then have "length (digits (nat n)) = Suc (length (digits (nat n div 10)))"
    by (rule length_digits_step)
  then have "\<not> length (digits (nat n)) < 2"
    by (simp add: digits_nonempty)
  then show ?thesis using a by (simp add: fmt_02d_def Let_def)
qed

lemma fmt_02d_value: "0 \<le> n \<Longrightarrow> decimal_value (fmt_02d n) = nat n"
proof (cases "n < 10")
  case True
  assume "0 \<le> n"
  then have "nat n < 10" using True by simp
  then have "digit_value (digit_char (nat n)) = nat n" by (rule digit_char_value)
  then show ?thesis
    using True \<open>0 \<le> n\<close> by (simp add: fmt_02d_small decimal_value_def digit_value_def)
next
  case False
  then show ?thesis by (simp add: fmt_02d_large decimal_value_digits)
qed

lemma fmt_02d_length:
  assumes "0 \<le> n"
  shows "2 \<le> length (fmt_02d n)" and "length (fmt_02d n) = 2 \<longleftrightarrow> n < 100"
proof -
  consider "n < 10" | "10 \<le> n" "n < 100" | "100 \<le> n" by linarith
  then have "2 \<le> length (fmt_02d n) \<and> (length (fmt_02d n) = 2 \<longleftrightarrow> n < 100)"
  proof cases
    case 1
    then show ?thesis using assms by (simp add: fmt_02d_small)
  next
    case 2
    then have "length (digits (nat n)) = 2" by (intro length_digits_two) simp_all
    then show ?thesis using 2 by (simp add: fmt_02d_large)
  next
    case 3
    then have "3 \<le> length (digits (nat n))" by (intro length_digits_three) simp
    then show ?thesis using 3 by (simp add: fmt_02d_large)
  qed
  then show "2 \<le> length (fmt_02d n)" and "length (fmt_02d n) = 2 \<longleftrightarrow> n < 100" by simp_all
qed

lemma fmt_02d_length_int:
  assumes "0 \<le> n" and "n < 2 ^ 31"
  shows "length (fmt_02d n) \<le> 10"
proof (cases "n < 10")
  case True
  then show ?thesis using assms by (simp add: fmt_02d_small)
next
  case False
  have "nat n < 2 ^ 31" using assms by simp
  then show ?thesis using False by (simp add: fmt_02d_large length_digits_int)
qed

lemma separate_rec_wav: "separate_extension ''rec.wav'' = (''rec'', ''wav'')"
  by (simp add: separate_extension_def PATH_MAX_def char_at_def Let_def)

subsection \<open>Time-expansion mode\<close>



lemma digit_chars:
  "digit_char 0 = CHR ''0''" "digit_char 1 = CHR ''1''" "digit_char 2 = CHR ''2''"
  "digit_char 3 = CHR ''3''" "digit_char (Suc 0) = CHR ''1''"
  by (simp_all add: digit_char_def)

lemma fmt_02d_examples:
  "fmt_02d 1 = ''01''" "fmt_02d 2 = ''02''" "fmt_02d 3 = ''03''" "fmt_02d 100 = ''100''"
  by (simp_all add: fmt_02d_small fmt_02d_large digits_large digits_small digit_chars)



subsection \<open>Counter mode\<close>

lemma fs_exists_remove: "fs_exists a (fs_remove b fs) \<longleftrightarrow> a \<noteq> b \<and> fs_exists a fs"
  by (auto simp: fs_exists_def fs_remove_def)

lemma fs_exists_create: "fs_exists a (fs_create b fs) \<longleftrightarrow> a = b \<or> fs_exists a fs"
  by (auto simp: fs_exists_def fs_create_def)

lemma fs_exists_relabel:
  "fs_exists a (map (\<lambda>e. if fst e = old then (new, snd e) else e) fs) \<longleftrightarrow>
     (a = new \<and> fs_exists old fs) \<or> (a \<noteq> old \<and> fs_exists a fs)"
  by (induction fs) (auto simp: fs_exists_def)

lemma fs_exists_rename:
  assumes "old \<noteq> new"
  shows "fs_exists a (fs_rename old new fs) \<longleftrightarrow>
    (if fs_exists old fs then a = new \<or> (a \<noteq> old \<and> fs_exists a fs) else fs_exists a fs)"
proof (cases "fs_exists old fs")
  case False
  then show ?thesis by (simp add: fs_rename_def)
next
  case True
  then have "fs_exists a (fs_rename old new fs) \<longleftrightarrow>
      (a = new \<and> fs_exists old (fs_remove new fs)) \<or> (a \<noteq> old \<and> fs_exists a (fs_remove new fs))"
    using assms by (simp add: fs_rename_def fs_exists_relabel)
  then show ?thesis using True assms by (auto simp: fs_exists_remove)
qed

lemma map_of_remove:
  "map_of (fs_remove b fs) a = (if a = b then None else map_of fs a)"
  by (induction fs) (auto simp: fs_remove_def)

lemma fs_get_remove: "a \<noteq> b \<Longrightarrow> fs_get a (fs_remove b fs) = fs_get a fs"
  by (simp add: fs_get_def map_of_remove)

lemma map_of_relabel:
  assumes "new \<notin> fst ` set fs" and "old \<noteq> new"
  shows "map_of (map (\<lambda>e. if fst e = old then (new, snd e) else e) fs) new = map_of fs old"
  using assms by (induction fs) auto

lemma fs_get_rename:
  assumes "fs_exists old fs" and "old \<noteq> new"
  shows "fs_get new (fs_rename old new fs) = fs_get old fs"
proof -
  have "new \<notin> fst ` set (fs_remove new fs)" by (auto simp: fs_remove_def)
  then have "map_of (map (\<lambda>e. if fst e = old then (new, snd e) else e) (fs_remove new fs)) new
      = map_of (fs_remove new fs) old"
    using assms(2) by (rule map_of_relabel)
  then show ?thesis using assms by (simp add: fs_get_def fs_rename_def map_of_remove)
qed

lemma fs_get_create_other: "a \<noteq> b \<Longrightarrow> fs_get a (fs_create b fs) = fs_get a fs"
  by (simp add: fs_get_def fs_create_def map_of_append split: option.splits)
    (auto simp: map_add_def split: option.splits)

lemma fs_get_create_new: "\<not> fs_exists b fs \<Longrightarrow> fs_get b (fs_create b fs) = []"
proof -
  assume a: "\<not> fs_exists b fs"
  then have "map_of fs b = None" by (simp add: fs_exists_def map_of_eq_None_iff)
  then show ?thesis using a by (simp add: fs_get_def fs_create_def map_add_def)
qed

lemma numbered_rec_wav:
  assumes "0 \<le> n" and "n < 2 ^ 31"
  shows "numbered_name namebuf_size ''rec'' ''wav'' n = ''rec-'' @ fmt_02d n @ ''.wav''"
proof -
  have "length (fmt_02d n) \<le> 10" using assms by (rule fmt_02d_length_int)
  then show ?thesis by (simp add: numbered_name_def PATH_MAX_def namebuf_size_def)
qed

text \<open>
  C4. In counter mode with the base name \<open>rec.wav\<close>, the opening of the output
  succeeding. The first rotation (one file opened so far) renames \<open>rec.wav\<close> to
  \<open>rec-01.wav\<close>, whose former contents, if any, are gone, and opens an empty
  \<open>rec-02.wav\<close>; the name \<open>rec.wav\<close> is no longer there, and three is the next
  count. A later rotation, at count \<open>n\<close>, opens \<open>rec-NN.wav\<close>, where \<open>NN\<close> is
  \<open>n\<close> in decimal with at least two digits, filled with a zero, touches no other
  file, and leaves \<open>n + 1\<close> as the next count: the numbers in the names go up by
  one from file to file.
\<close>

theorem counter_rotation_names:
  assumes "\<not> use_strftime cfg" and "open_ok fe" and "2 \<le> n" and "n < 2 ^ 31"
  shows "(\<exists>w1. open_output cfg ''rec.wav'' False fe 1 w = Returns (3, Some ''rec-02.wav'') w1 \<and>
            \<not> fs_exists ''rec.wav'' (files w1) \<and>
            fs_exists ''rec-01.wav'' (files w1) = fs_exists ''rec.wav'' (files w) \<and>
            (if fs_exists ''rec.wav'' (files w)
             then fs_get ''rec-01.wav'' (files w1) = fs_get ''rec.wav'' (files w) else True) \<and>
            fs_exists ''rec-02.wav'' (files w1) \<and> fs_get ''rec-02.wav'' (files w1) = []) \<and>
         open_output cfg ''rec.wav'' False fe n w =
           Returns (n + 1, Some (''rec-'' @ fmt_02d n @ ''.wav''))
             (w\<lparr>files := fs_create (''rec-'' @ fmt_02d n @ ''.wav'')
                            (fs_remove (''rec-'' @ fmt_02d n @ ''.wav'') (files w))\<rparr>) \<and>
         2 \<le> length (fmt_02d n) \<and> decimal_value (fmt_02d n) = nat n \<and>
         decimal_value (fmt_02d (n + 1)) = nat n + 1"
proof -
  let ?fs1 = "fs_rename ''rec.wav'' ''rec-01.wav'' (fs_remove ''rec-01.wav'' (files w))"
  let ?fs2 = "fs_create ''rec-02.wav'' (fs_remove ''rec-02.wav'' ?fs1)"
  have n2: "numbered_name namebuf_size ''rec'' ''wav'' 2 = ''rec-02.wav''"
    using numbered_rec_wav [of 2] by (simp add: fmt_02d_examples)
  have f1: "first_name namebuf_size ''rec'' ''wav'' = ''rec-01.wav''"
    by (simp add: first_name_def PATH_MAX_def namebuf_size_def)
  have first: "open_output cfg ''rec.wav'' False fe 1 w
      = Returns (3, Some ''rec-02.wav'') (w\<lparr>files := ?fs2\<rparr>)"
    using assms(1,2)
    by (simp add: open_output_def new_capture_file_def separate_rec_wav n2 f1 Let_def)
  have ex1: "fs_exists a ?fs1 \<longleftrightarrow>
      (if fs_exists ''rec.wav'' (files w) then a = ''rec-01.wav'' \<or> (a \<noteq> ''rec.wav'' \<and> fs_exists a (files w))
       else a \<noteq> ''rec-01.wav'' \<and> fs_exists a (files w))" for a
    by (auto simp: fs_exists_rename fs_exists_remove)
  have a: "\<not> fs_exists ''rec.wav'' ?fs2"
    by (simp add: fs_exists_create fs_exists_remove ex1)
  have b: "fs_exists ''rec-01.wav'' ?fs2 = fs_exists ''rec.wav'' (files w)"
    by (simp add: fs_exists_create fs_exists_remove ex1)
  have c: "fs_get ''rec-01.wav'' ?fs2 = fs_get ''rec.wav'' (files w)"
    if "fs_exists ''rec.wav'' (files w)"
  proof -
    have "fs_exists ''rec.wav'' (fs_remove ''rec-01.wav'' (files w))"
      using that by (simp add: fs_exists_remove)
    then have "fs_get ''rec-01.wav'' ?fs1 = fs_get ''rec.wav'' (fs_remove ''rec-01.wav'' (files w))"
      by (rule fs_get_rename) simp
    then show ?thesis by (simp add: fs_get_create_other fs_get_remove)
  qed
  have d: "fs_exists ''rec-02.wav'' ?fs2" by (simp add: fs_exists_create)
  have e: "fs_get ''rec-02.wav'' ?fs2 = []"
    by (rule fs_get_create_new) (simp add: fs_exists_remove)
  have n0: "0 \<le> n" "n \<noteq> 0" "n \<noteq> 1" "0 \<le> n + 1" using assms(3) by simp_all
  have later: "open_output cfg ''rec.wav'' False fe n w =
           Returns (n + 1, Some (''rec-'' @ fmt_02d n @ ''.wav''))
             (w\<lparr>files := fs_create (''rec-'' @ fmt_02d n @ ''.wav'')
                            (fs_remove (''rec-'' @ fmt_02d n @ ''.wav'') (files w))\<rparr>)"
    using assms(1,2) n0 numbered_rec_wav [OF n0(1) assms(4)]
    by (simp add: open_output_def new_capture_file_def separate_rec_wav Let_def)
  have v: "decimal_value (fmt_02d n) = nat n" "decimal_value (fmt_02d (n + 1)) = nat n + 1"
    using fmt_02d_value [OF n0(1)] fmt_02d_value [OF n0(4)] n0(1) by (simp_all add: nat_add_distrib)
  show ?thesis
    using first a b c d e later v fmt_02d_length(1) [OF n0(1)]
    by (intro conjI exI [of _ "w\<lparr>files := ?fs2\<rparr>"]) simp_all
qed

section \<open>The last partial chunk\<close>



section \<open>The values returned by the transfer functions\<close>

text \<open>
  C2, as stated, fails for \<open>pcm_read\<close>: asked for one frame, it reads a whole chunk
  of four frames from the device and returns one.
\<close>

theorem pcm_read_returns_request:
  "pcm_read cfg_capture [round_of 4 [9, 8, 7, 6]] 1 (world_init [1, 2, 3, 4] [])
   = Returns 1 ((world_init [9, 8, 7, 6] [])\<lparr>device := [9, 8, 7, 6], device_frames := 4\<rparr>) \<and>
   device_frames ((world_init [9, 8, 7, 6] [])\<lparr>device := [9, 8, 7, 6], device_frames := 4\<rparr>)
     - device_frames (world_init [1, 2, 3, 4] []) = 4"
  by (simp add: transfer_defs cfg_capture_fields Let_def)

text \<open>
  C2, amended. \<open>pcm_write\<close> returns the number of frames the device has taken,
  whenever and however it returns, an abort included. \<open>pcm_read\<close>, in a run that
  ends with no abort seen and on a device that never reports more frames than it was
  asked for, has read exactly one chunk of \<open>chunk_size\<close> frames from the device,
  whatever the requested count was, and returns the requested count.
\<close>

theorem transfer_return_values:
  assumes "chunk_size cfg < 2 ^ 64" and "rcount < 2 ^ 63"
  shows "(pcm_write cfg ss doff count w = Returns res w'
            \<longrightarrow> res = int (device_frames w') - int (device_frames w)) \<and>
         (pcm_read cfg rs rcount v = Returns rd v' \<and> \<not> in_aborting v' \<and>
          within_request rs (chunk_size cfg)
            \<longrightarrow> rd = int rcount \<and> device_frames v' = device_frames v + chunk_size cfg)"
proof -
  have a: "pcm_write cfg ss doff count w = Returns res w'
            \<longrightarrow> res = int (device_frames w') - int (device_frames w)"
    using pcm_write_counts by blast
  have b: "pcm_read cfg rs rcount v = Returns rd v' \<and> \<not> in_aborting v' \<and>
          within_request rs (chunk_size cfg)
            \<longrightarrow> rd = int rcount \<and> device_frames v' = device_frames v + chunk_size cfg"
  proof
    assume a: "pcm_read cfg rs rcount v = Returns rd v' \<and> \<not> in_aborting v' \<and>
          within_request rs (chunk_size cfg)"
    then obtain k where l: "pcm_read_loop cfg rs 0 (chunk_size cfg) 0 v = Returns k v'"
      unfolding pcm_read_def Let_def pcm_read_count
      by (cases "pcm_read_loop cfg rs 0 (chunk_size cfg) 0 v") simp_all
    have "0 + chunk_size cfg < 2 ^ 64" using assms(1) by simp
    from pcm_read_loop_complete [OF _ this l] a
    have "device_frames v' = device_frames v + chunk_size cfg" by simp
    moreover have "rd = int rcount"
      using a pcm_read_Returns [of cfg rs rcount v rd v'] assms(2) by (simp add: ssize_of_def)
    ultimately show "rd = int rcount \<and> device_frames v' = device_frames v + chunk_size cfg"
      by simp
  qed
  show ?thesis using a b by blast
qed

theorem transfer_return_values_witness:
  "chunk_size cfg_capture < 2 ^ 64 \<and> within_request [round_of 4 [9, 8, 7, 6]] (chunk_size cfg_capture) \<and>
   pcm_write cfg_capture [round_of 3 [], signal_round SIGINT] 0 4 (world_init [1, 2, 3, 4] [])
   = Returns 3 ((world_init [1, 2, 3, 4] [])\<lparr>device := [1, 2, 3], device_frames := 3,
       in_aborting := True, sig_dfl := [SIGINT]\<rparr>) \<and>
   pcm_read cfg_capture [round_of 4 [9, 8, 7, 6]] 4 (world_init [1, 2, 3, 4] [])
   = Returns 4 ((world_init [9, 8, 7, 6] [])\<lparr>device := [9, 8, 7, 6], device_frames := 4\<rparr>)"
proof -
  have h: "chunk_size cfg_capture < 2 ^ 64" "(4::nat) < 2 ^ 63"
    by (simp_all add: cfg_capture_fields)
  have w: "within_request [round_of 4 [9, 8, 7, 6]] (chunk_size cfg_capture)"
    by (simp add: cfg_capture_fields round_of_def)
  from transfer_return_values [OF h, of "[round_of 3 [], signal_round SIGINT]" 0 4
      "world_init [1, 2, 3, 4] []" 3 _ "[round_of 4 [9, 8, 7, 6]]" "world_init [1, 2, 3, 4] []"] h w
  show ?thesis by (simp add: transfer_defs cfg_capture_fields Let_def)
qed

section \<open>The file time limit\<close>

text \<open>
  C3. Ten one-byte frames at 4 Hz, two and a half seconds, are captured with
  \<open>max_file_time = 1\<close>, in chunks of four frames, with no signal. The limit is
  computed, \<open>max_file_size = 4\<close>, and ignored: there is no rotation, and all ten
  bytes are in the one file \<open>rec.wav\<close>.
\<close>

theorem max_file_time_ignored:
  "capture cfg_capture_10 (Some ''rec.wav'')
     [quiet_file [quiet_chunk [1, 2, 3, 4] 4, quiet_chunk [5, 6, 7, 8] 4,
        quiet_chunk [9, 10, 11, 12] 2]]
     (world_init [0, 0, 0, 0] [])
   = Returns () ((world_init [9, 10, 11, 12] [])\<lparr>device := [1, 2, 3, 4, 5, 6, 7, 8, 9, 10, 11, 12],
       device_frames := 12, files := [(''rec.wav'', [1, 2, 3, 4, 5, 6, 7, 8, 9, 10])],
       max_file_size := 4\<rparr>)"
  by (simp add: capture_defs transfer_defs cfg_capture_10_fields Let_def)

section \<open>Witnesses of the naming theorems\<close>

theorem counter_rotation_names_witness:
  "\<not> use_strftime cfg_capture \<and> open_ok (quiet_file []) \<and>
   open_output cfg_capture ''rec.wav'' False (quiet_file []) 1
     ((world_init [] [])\<lparr>files := [(''rec-01.wav'', [9]), (''rec.wav'', [1, 2])]\<rparr>)
   = Returns (3, Some ''rec-02.wav'')
       ((world_init [] [])\<lparr>files := [(''rec-01.wav'', [1, 2]), (''rec-02.wav'', [])]\<rparr>) \<and>
   open_output cfg_capture ''rec.wav'' False (quiet_file []) 3 (world_init [] [])
   = Returns (4, Some ''rec-03.wav'') ((world_init [] [])\<lparr>files := [(''rec-03.wav'', [])]\<rparr>) \<and>
   capture cfg_capture (Some ''rec.wav'')
     [quiet_file [quiet_chunk [1, 2, 3, 4] 4, usr1_chunk],
      quiet_file [quiet_chunk [5, 6, 7, 8] 4, usr1_chunk],
      quiet_file [quiet_chunk [9, 10, 11, 12] 4, signal_chunk SIGINT]]
     (world_init [0, 0, 0, 0] [])
   = Exits 1 ((world_init [9, 10, 11, 12] [])\<lparr>device := [1, 2, 3, 4, 5, 6, 7, 8, 9, 10, 11, 12],
       device_frames := 12,
       files := [(''rec-01.wav'', [1, 2, 3, 4]), (''rec-02.wav'', [5, 6, 7, 8]),
                 (''rec-03.wav'', [9, 10, 11, 12])],
       in_aborting := True, handle := Handle_closed, pidfile_exists := False,
       sig_dfl := [SIGINT]\<rparr>)"
proof -
  have h: "\<not> use_strftime cfg_capture" "open_ok (quiet_file [])" "(2::int) \<le> 3" "(3::int) < 2 ^ 31"
    by (simp_all add: cfg_capture_fields quiet_file_def)
  have nn: "numbered_name namebuf_size ''rec'' ''wav'' 2 = ''rec-02.wav''"
    "numbered_name namebuf_size ''rec'' ''wav'' 3 = ''rec-03.wav''"
    "first_name namebuf_size ''rec'' ''wav'' = ''rec-01.wav''"
    by (simp_all add: numbered_name_def first_name_def namebuf_size_def PATH_MAX_def
        fmt_02d_examples)
  have run: "capture cfg_capture (Some ''rec.wav'')
     [quiet_file [quiet_chunk [1, 2, 3, 4] 4, usr1_chunk],
      quiet_file [quiet_chunk [5, 6, 7, 8] 4, usr1_chunk],
      quiet_file [quiet_chunk [9, 10, 11, 12] 4, signal_chunk SIGINT]]
     (world_init [0, 0, 0, 0] [])
   = Exits 1 ((world_init [9, 10, 11, 12] [])\<lparr>device := [1, 2, 3, 4, 5, 6, 7, 8, 9, 10, 11, 12],
       device_frames := 12,
       files := [(''rec-01.wav'', [1, 2, 3, 4]), (''rec-02.wav'', [5, 6, 7, 8]),
                 (''rec-03.wav'', [9, 10, 11, 12])],
       in_aborting := True, handle := Handle_closed, pidfile_exists := False,
       sig_dfl := [SIGINT]\<rparr>)"
    by (simp add: capture_def calc_count_def snd_pcm_format_size_def LLONG_MAX_def c_mod_def
        c_div_def uint_mul_def s64_def open_output_def new_capture_file_def fs_rename_def
        fs_create_def fs_get_def fs_put_def output_data_def set_output_def xwrite_def
        quiet_chunk_def usr1_chunk_def signal_chunk_def quiet_file_def
        separate_rec_wav nn transfer_defs cfg_capture_fields Let_def)
  from counter_rotation_names [OF h, of
      "(world_init [] [])\<lparr>files := [(''rec-01.wav'', [9]), (''rec.wav'', [1, 2])]\<rparr>"]
    counter_rotation_names [OF h, of "world_init [] []"] h(1,2) run
  show ?thesis
    by (simp add: open_output_def new_capture_file_def fs_rename_def
        fs_create_def separate_rec_wav nn fmt_02d_examples cfg_capture_fields quiet_file_def
        world_init_def prg_exit_def Let_def)
qed


end
